theory Spec2Isabelle
  imports Main "HOL-Library.Word"
begin

section \<open>ECMAScript strings and regular expressions used by the node\<close>

text \<open>
  A \<^typ>\<open>string\<close> stands for a JavaScript string whose code units are below 256
  (the Latin-1 range); a \<^typ>\<open>char\<close> is one code unit. The character predicates
  below are the ECMAScript ones restricted to that range.
\<close>

definition isLineTerminator :: "char \<Rightarrow> bool" where
  "isLineTerminator c = (c \<in> set [CHR 0x0A, CHR 0x0D])"

definition isWhiteSpace :: "char \<Rightarrow> bool" where
  \<comment> \<open>WhiteSpace and LineTerminator, as used by \<open>\s\<close> and \<open>String.prototype.trim\<close>\<close>
  "isWhiteSpace c = (c \<in> set [CHR 0x09, CHR 0x0A, CHR 0x0B, CHR 0x0C, CHR 0x0D, CHR 0x20, CHR 0xA0])"

definition isDigit :: "char \<Rightarrow> bool" where
  "isDigit c = (c \<in> set ''0123456789'')"

definition isWordChar :: "char \<Rightarrow> bool" where
  "isWordChar c = (c \<in> set ''abcdefghijklmnopqrstuvwxyzABCDEFGHIJKLMNOPQRSTUVWXYZ0123456789_'')"

definition isSyntaxCharacter :: "char \<Rightarrow> bool" where
  \<comment> \<open>SyntaxCharacter of the pattern grammar\<close>
  "isSyntaxCharacter c = (c \<in> set (''^$'' @ [CHR 0x5C] @ ''.*+?()[]{}|''))"

definition toUpperCase :: "char \<Rightarrow> char" where
  \<comment> \<open>simple upper-case mapping of a code unit when the result stays below 256\<close>
  "toUpperCase c =
     (let n = (of_char c :: nat)
      in if (97 \<le> n \<and> n \<le> 122) \<or> (224 \<le> n \<and> n \<le> 254 \<and> n \<noteq> 247)
         then char_of (n - 32) else c)"

definition Canonicalize :: "bool \<Rightarrow> char \<Rightarrow> char" where
  \<comment> \<open>the pattern semantics' Canonicalize without the unicode flag; \<open>ic\<close> is the \<open>i\<close> flag\<close>
  "Canonicalize ic c = (if ic then toUpperCase c else c)"

datatype cclass = CChar char | CDigit | CNotDigit | CWord | CNotWord | CSpace | CNotSpace

datatype atom = Chr char | Dot | Cls bool "cclass list"

text \<open>
  The pattern syntax trees of this development: quantifiers apply to single-character
  atoms, which covers every regular-expression literal of \<open>utils.ts\<close> and
  \<open>Evernote.node.ts\<close>. \<open>Star g a\<close> is \<open>a*\<close> (\<open>g\<close>) or \<open>a*?\<close> (\<open>\<not> g\<close>),
  \<open>Opt\<close> likewise for \<open>?\<close>; \<open>Grp n r\<close> is the \<open>n\<close>-th capturing group.
\<close>

datatype regex =
    Eps
  | Atom atom
  | Cat regex regex
  | Star bool atom
  | Opt bool atom
  | Grp nat regex

type_synonym captures = "nat \<rightharpoonup> string"

fun cfound :: "bool \<Rightarrow> cclass \<Rightarrow> char \<Rightarrow> bool" where
  "cfound ic (CChar a) ch = (Canonicalize ic a = Canonicalize ic ch)"
| "cfound ic CDigit ch = isDigit ch"
| "cfound ic CNotDigit ch = (\<not> isDigit ch)"
| "cfound ic CWord ch = isWordChar ch"
| "cfound ic CNotWord ch = (\<not> isWordChar ch)"
| "cfound ic CSpace ch = isWhiteSpace ch"
| "cfound ic CNotSpace ch = (\<not> isWhiteSpace ch)"

fun amatch :: "bool \<Rightarrow> atom \<Rightarrow> char \<Rightarrow> bool" where
  "amatch ic (Chr a) ch = (Canonicalize ic a = Canonicalize ic ch)"
| "amatch ic Dot ch = (\<not> isLineTerminator ch)"
| "amatch ic (Cls invert items) ch = (list_ex (\<lambda>it. cfound ic it ch) items \<noteq> invert)"

text \<open>
  The backtracking matcher: \<open>ms ic r s caps\<close> lists, in the priority order of the
  ECMAScript backtracking semantics, every way \<open>r\<close> can match a prefix of \<open>s\<close>, each as
  the unread rest of \<open>s\<close> with the captures. The match the engine reports is the head.
\<close>

fun ms :: "bool \<Rightarrow> regex \<Rightarrow> string \<Rightarrow> captures \<Rightarrow> (string \<times> captures) list" where
  "ms ic Eps s caps = [(s, caps)]"
| "ms ic (Atom a) s caps =
     (case s of [] \<Rightarrow> [] | c # t \<Rightarrow> if amatch ic a c then [(t, caps)] else [])"
| "ms ic (Cat r1 r2) s caps =
     concat (map (\<lambda>(s', caps'). ms ic r2 s' caps') (ms ic r1 s caps))"
| "ms ic (Star greedy a) s caps =
     (case s of
        [] \<Rightarrow> [([], caps)]
      | c # t \<Rightarrow>
          if amatch ic a c
          then (if greedy then ms ic (Star greedy a) t caps @ [(s, caps)]
                else (s, caps) # ms ic (Star greedy a) t caps)
          else [(s, caps)])"
| "ms ic (Opt greedy a) s caps =
     (case s of
        [] \<Rightarrow> [([], caps)]
      | c # t \<Rightarrow>
          if amatch ic a c
          then (if greedy then [(t, caps), (s, caps)] else [(s, caps), (t, caps)])
          else [(s, caps)])"
| "ms ic (Grp n r) s caps =
     map (\<lambda>(s', caps'). (s', caps'(n \<mapsto> take (length s - length s') s))) (ms ic r s caps)"

fun ngroups :: "regex \<Rightarrow> nat" where
  "ngroups (Cat r1 r2) = ngroups r1 + ngroups r2"
| "ngroups (Grp n r) = Suc (ngroups r)"
| "ngroups r = 0"

text \<open>
  \<open>regexSearch\<close> is \<open>RegExpBuiltinExec\<close> from the start of \<open>s\<close>: the leftmost position
  with a match, as (text before, matched text, text after, captures).
\<close>

fun regexSearch :: "bool \<Rightarrow> regex \<Rightarrow> string \<Rightarrow> string \<Rightarrow> (string \<times> string \<times> string \<times> captures) option" where
  "regexSearch ic r pre s =
     (case ms ic r s Map.empty of
        (rest, caps) # _ \<Rightarrow> Some (pre, take (length s - length rest) s, rest, caps)
      | [] \<Rightarrow> (case s of [] \<Rightarrow> None | c # t \<Rightarrow> regexSearch ic r (pre @ [c]) t))"

definition digitValue :: "char \<Rightarrow> nat" where
  "digitValue d = of_char d - 48"

text \<open>
  \<open>GetSubstitution\<close> expands the replacement template of \<open>String.prototype.replace\<close>:
  \<open>$$\<close>, \<open>$&\<close>, \<open>$`\<close>, \<open>$'\<close> and \<open>$n\<close>/\<open>$nn\<close> for the \<open>m\<close> capturing groups of the
  pattern (there are no named groups).
\<close>

fun GetSubstitution :: "string \<Rightarrow> string \<Rightarrow> string \<Rightarrow> nat \<Rightarrow> captures \<Rightarrow> string \<Rightarrow> string" where
  "GetSubstitution matched pre post m caps [] = []"
| "GetSubstitution matched pre post m caps [c] = [c]"
| "GetSubstitution matched pre post m caps (c # d # t) =
     (if c \<noteq> CHR ''$'' then c # GetSubstitution matched pre post m caps (d # t)
      else if d = CHR ''$'' then CHR ''$'' # GetSubstitution matched pre post m caps t
      else if d = CHR ''&'' then matched @ GetSubstitution matched pre post m caps t
      else if d = CHR 0x60 then pre @ GetSubstitution matched pre post m caps t
      else if d = CHR 0x27 then post @ GetSubstitution matched pre post m caps t
      else if isDigit d then
        (case t of
           [] \<Rightarrow>
             (if 1 \<le> digitValue d \<and> digitValue d \<le> m
              then (case caps (digitValue d) of None \<Rightarrow> [] | Some g \<Rightarrow> g)
              else [c, d])
         | d2 # t2 \<Rightarrow>
             (if isDigit d2 \<and> 10 * digitValue d + digitValue d2 \<le> m
              then (if 1 \<le> 10 * digitValue d + digitValue d2
                    then (case caps (10 * digitValue d + digitValue d2) of None \<Rightarrow> [] | Some g \<Rightarrow> g)
                    else [c, d, d2])
                   @ GetSubstitution matched pre post m caps t2
              else (if 1 \<le> digitValue d \<and> digitValue d \<le> m
                    then (case caps (digitValue d) of None \<Rightarrow> [] | Some g \<Rightarrow> g)
                    else [c, d])
                   @ GetSubstitution matched pre post m caps (d2 # t2)))
      else c # GetSubstitution matched pre post m caps (d # t))"

text \<open>
  \<open>regexReplaceAll\<close> is \<open>String.prototype.replace\<close> with a regular expression that has
  the \<open>g\<close> flag: every match from left to right is replaced; after an empty match the
  search resumes one code unit further.
\<close>

fun regexReplaceAll :: "bool \<Rightarrow> regex \<Rightarrow> string \<Rightarrow> string \<Rightarrow> string \<Rightarrow> string" where
  "regexReplaceAll ic r template pre s =
     (case ms ic r s Map.empty of
        [] \<Rightarrow> (case s of [] \<Rightarrow> [] | c # t \<Rightarrow> c # regexReplaceAll ic r template (pre @ [c]) t)
      | (rest, caps) # _ \<Rightarrow>
          GetSubstitution (take (length s - length rest) s) pre rest (ngroups r) caps template
          @ (if length rest < length s
             then regexReplaceAll ic r template (pre @ take (length s - length rest) s) rest
             else (case s of [] \<Rightarrow> [] | c # t \<Rightarrow> c # regexReplaceAll ic r template (pre @ [c]) t)))"


text \<open>
  \<open>new RegExp(pattern, flags)\<close> for the part of the pattern grammar that is modelled:
  sequences of pattern characters, \<open>.\<close>, identity escapes of syntax characters and of
  \<open>/\<close>, the class escapes \<open>\d \D \w \W \s \S\<close> and the control escapes
  \<open>\t \n \v \f \r\<close>. A pattern is read from the left; the first thing that is not such
  an atom decides: a backslash at the end of the pattern is a \<open>SyntaxError\<close>, anything
  else is \<open>NotModelled\<close>: such a pattern is left to the constructor of the runtime
  (\<open>newRegExp\<close> below).
\<close>

datatype compiled = Compiled regex | SyntaxError | NotModelled

definition escapeAtom :: "char \<Rightarrow> atom option" where
  "escapeAtom e =
     (if isSyntaxCharacter e \<or> e = CHR ''/'' then Some (Chr e)
      else if e = CHR ''d'' then Some (Cls False [CDigit])
      else if e = CHR ''D'' then Some (Cls False [CNotDigit])
      else if e = CHR ''w'' then Some (Cls False [CWord])
      else if e = CHR ''W'' then Some (Cls False [CNotWord])
      else if e = CHR ''s'' then Some (Cls False [CSpace])
      else if e = CHR ''S'' then Some (Cls False [CNotSpace])
      else if e = CHR ''t'' then Some (Chr (CHR 0x09))
      else if e = CHR ''n'' then Some (Chr (CHR 0x0A))
      else if e = CHR ''v'' then Some (Chr (CHR 0x0B))
      else if e = CHR ''f'' then Some (Chr (CHR 0x0C))
      else if e = CHR ''r'' then Some (Chr (CHR 0x0D))
      else None)"

fun seqAtom :: "atom \<Rightarrow> compiled \<Rightarrow> compiled" where
  "seqAtom a (Compiled r) = Compiled (Cat (Atom a) r)"
| "seqAtom a SyntaxError = SyntaxError"
| "seqAtom a NotModelled = NotModelled"

fun parsePattern :: "string \<Rightarrow> compiled" where
  "parsePattern [] = Compiled Eps"
| "parsePattern [c] =
     (if c = CHR 0x5C then SyntaxError
      else if c = CHR ''.'' then Compiled (Cat (Atom Dot) Eps)
      else if isSyntaxCharacter c then NotModelled
      else Compiled (Cat (Atom (Chr c)) Eps))"
| "parsePattern (c # e # t) =
     (if c = CHR 0x5C then
        (case escapeAtom e of None \<Rightarrow> NotModelled | Some a \<Rightarrow> seqAtom a (parsePattern t))
      else if c = CHR ''.'' then seqAtom Dot (parsePattern (e # t))
      else if isSyntaxCharacter c then NotModelled
      else seqAtom (Chr c) (parsePattern (e # t)))"

text \<open>A compiled \<open>RegExp\<close> object: its pattern and the \<open>g\<close> and \<open>i\<close> flags.\<close>

record regexp =
  pattern :: regex
  global :: bool
  ignoreCase :: bool

datatype regexp_result = RegExp regexp | RegExpSyntaxError | RegExpNotModelled

definition RegExp_new :: "string \<Rightarrow> string \<Rightarrow> regexp_result" where
  \<comment> \<open>the flags are \<open>'g'\<close> or \<open>'gi'\<close> at the only call\<close>
  "RegExp_new pat flags =
     (case parsePattern pat of
        Compiled r \<Rightarrow>
          RegExp \<lparr>pattern = r, global = (CHR ''g'' \<in> set flags), ignoreCase = (CHR ''i'' \<in> set flags)\<rparr>
      | SyntaxError \<Rightarrow> RegExpSyntaxError
      | NotModelled \<Rightarrow> RegExpNotModelled)"

definition stringReplace :: "string \<Rightarrow> regexp \<Rightarrow> string \<Rightarrow> string" where
  \<comment> \<open>\<open>s.replace(rx, replaceValue)\<close>; without \<open>g\<close> only the first match is replaced\<close>
  "stringReplace s rx replaceValue =
     (if global rx then regexReplaceAll (ignoreCase rx) (pattern rx) replaceValue [] s
      else (case regexSearch (ignoreCase rx) (pattern rx) [] s of
              None \<Rightarrow> s
            | Some (pre, matched, post, caps) \<Rightarrow>
                pre @ GetSubstitution matched pre post (ngroups (pattern rx)) caps replaceValue @ post))"

fun lit :: "string \<Rightarrow> regex" where
  \<comment> \<open>a run of pattern characters\<close>
  "lit [] = Eps"
| "lit (c # cs) = Cat (Atom (Chr c)) (lit cs)"

fun cats :: "regex list \<Rightarrow> regex" where
  \<comment> \<open>the terms of an alternative, in order\<close>
  "cats [] = Eps"
| "cats (r # rs) = Cat r (cats rs)"

section \<open>\<open>nodes/Evernote/utils.ts\<close>\<close>

definition enmlDocType :: string where
  "enmlDocType = ''<!DOCTYPE en-note SYSTEM '' @ [CHR 0x22] @ ''http://xml.evernote.com/pub/enml2.dtd'' @ [CHR 0x22] @ ''>''"

definition xmlProlog :: string where
  \<comment> \<open>the text before \<open>${enmlDocType}\<close> in the template of \<open>wrapEnmlBody\<close>\<close>
  "xmlProlog = ''<?xml version='' @ [CHR 0x22] @ ''1.0'' @ [CHR 0x22] @ '' encoding='' @ [CHR 0x22] @ ''UTF-8'' @ [CHR 0x22] @ ''?>'' @ [CHR 0x0A]"

definition escapeXml :: "string \<Rightarrow> string" where
  "escapeXml v =
     regexReplaceAll False (Atom (Chr (CHR 0x22))) ''&quot;'' []
       (regexReplaceAll False (Atom (Chr (CHR ''>''))) ''&gt;'' []
         (regexReplaceAll False (Atom (Chr (CHR ''<''))) ''&lt;'' []
           (regexReplaceAll False (Atom (Chr (CHR ''&''))) ''&amp;'' [] v)))"

definition wrapEnmlBody :: "string \<Rightarrow> string" where
  "wrapEnmlBody body = xmlProlog @ enmlDocType @ ''<en-note>'' @ body @ ''</en-note>''"

definition enNoteRegex :: regex where
  \<comment> \<open>\<open>/<en-note[^>]*>([\s\S]*?)<\/en-note>/i\<close>\<close>
  "enNoteRegex =
     cats [lit ''<en-note'', Star True (Cls True [CChar (CHR ''>'')]), Atom (Chr (CHR ''>'')),
           Grp 1 (Star False (Cls False [CSpace, CNotSpace])), lit ''</en-note>'']"

definition extractEnmlBody :: "string \<Rightarrow> string" where
  \<comment> \<open>\<open>match ? match[1] : ''\<close>; group 1 takes part in every match of this pattern\<close>
  "extractEnmlBody enml =
     (case regexSearch True enNoteRegex [] enml of
        None \<Rightarrow> []
      | Some (pre, matched, post, caps) \<Rightarrow> (case caps 1 of Some body \<Rightarrow> body | None \<Rightarrow> []))"

definition lineBreakRegex :: regex where
  \<comment> \<open>\<open>/\r?\n/g\<close>\<close>
  "lineBreakRegex = Cat (Opt True (Chr (CHR 0x0D))) (Atom (Chr (CHR 0x0A)))"

definition plainTextToEnml :: "string \<Rightarrow> string" where
  "plainTextToEnml text =
     (let escaped = regexReplaceAll False lineBreakRegex ''<br />'' [] (escapeXml text);
          body = ''<div>'' @ escaped @ ''</div>''
      in wrapEnmlBody body)"

definition sanitizeHtmlToEnml :: "(string \<Rightarrow> string) \<Rightarrow> string \<Rightarrow> string" where
  \<comment> \<open>\<open>sanitizeHtml\<close> is the sanitize-html package called with \<open>sanitizerOptions\<close>\<close>
  "sanitizeHtmlToEnml sanitizeHtml html = wrapEnmlBody (sanitizeHtml html)"


text \<open>\<open>String.prototype.split\<close> with a one-character separator, and \<open>trim\<close>.\<close>

fun splitOn :: "char \<Rightarrow> string \<Rightarrow> string list" where
  "splitOn sep [] = [[]]"
| "splitOn sep (c # cs) =
     (if c = sep then [] # splitOn sep cs
      else (case splitOn sep cs of [] \<Rightarrow> [[c]] | x # xs \<Rightarrow> (c # x) # xs))"

definition trim :: "string \<Rightarrow> string" where
  "trim s = rev (dropWhile isWhiteSpace (rev (dropWhile isWhiteSpace s)))"

definition parseBinaryPropertyNames :: "string option \<Rightarrow> string list" where
  "parseBinaryPropertyNames raw =
     (case raw of
        None \<Rightarrow> []
      | Some r \<Rightarrow> filter (\<lambda>name. length name > 0) (map trim (splitOn (CHR '','') r)))"

subsection \<open>Attachments\<close>

type_synonym byte = "8 word"

text \<open>The fields of an item's binary property that the node reads.\<close>

record binary_data =
  mimeType :: "string option"
  fileName :: "string option"
  file_name :: "string option"

text \<open>\<open>Evernote.Types.Data\<close>, \<open>ResourceAttributes\<close> and \<open>Resource\<close>, as constructed.\<close>

record data =
  body :: "byte list"
  data_size :: nat
  bodyHash :: "byte list"

record resource_attributes =
  attr_fileName :: string

record resource =
  data :: data
  mime :: string
  res_attributes :: resource_attributes

record resource_build_result =
  built_resources :: "resource list"
  mediaTags :: "string list"

text \<open>
  What the node can throw or pass on for one item. The three \<open>NodeOperationError\<close>s of
  \<open>execute\<close> are told apart by the place that throws them; the helpers of the workflow
  engine and the note store fail with a message of their own.
\<close>

datatype node_error =
    InputError string
  | RemoteServiceError string
  | SearchValueRequired
  | InvalidRegularExpression
  | InvalidAttributesJson

text \<open>
  The executor of the workflow engine, for the item being processed:
  \<open>helpers.assertBinaryData\<close> (throws, or returns), \<open>helpers.getBinaryDataBuffer\<close> and
  \<open>getInputData()[itemIndex]?.binary?.[propertyName]\<close>.
\<close>

record executor =
  assertBinaryData :: "nat \<Rightarrow> string \<Rightarrow> string option"
  getBinaryDataBuffer :: "nat \<Rightarrow> string \<Rightarrow> string + byte list"
  inputBinary :: "nat \<Rightarrow> string \<Rightarrow> binary_data option"

definition hexDigit :: "nat \<Rightarrow> char" where
  "hexDigit n = ''0123456789abcdef'' ! (n mod 16)"

definition toHex :: "byte list \<Rightarrow> string" where
  \<comment> \<open>\<open>Buffer.toString('hex')\<close>\<close>
  "toHex bs = concat (map (\<lambda>b. [hexDigit (unat b div 16), hexDigit (unat b mod 16)]) bs)"

definition orElse :: "string option \<Rightarrow> string \<Rightarrow> string" where
  \<comment> \<open>\<open>v || d\<close> for an optional string \<open>v\<close>: undefined and the empty string are falsy\<close>
  "orElse v d = (case v of None \<Rightarrow> d | Some s \<Rightarrow> if s = [] then d else s)"

definition mediaTag :: "string \<Rightarrow> byte list \<Rightarrow> string" where
  "mediaTag mime' hash =
     ''<en-media type='' @ [CHR 0x22] @ mime' @ [CHR 0x22] @ '' hash='' @ [CHR 0x22] @ toHex hash @ [CHR 0x22] @ '' />''"

text \<open>
  The loop of \<open>buildResourcesFromBinary\<close> over \<open>propertyNames\<close>, with the two arrays it
  pushes to; \<open>md5\<close> is \<open>createHash('md5').update(buffer).digest()\<close>.
\<close>

fun buildLoop ::
  "(byte list \<Rightarrow> byte list) \<Rightarrow> executor \<Rightarrow> nat \<Rightarrow> string list \<Rightarrow> resource list \<Rightarrow> string list
   \<Rightarrow> node_error + resource_build_result" where
  "buildLoop md5 ex itemIndex [] rs ts = Inr \<lparr>built_resources = rs, mediaTags = ts\<rparr>"
| "buildLoop md5 ex itemIndex (propertyName # rest) rs ts =
     (case assertBinaryData ex itemIndex propertyName of
        Some msg \<Rightarrow> Inl (InputError msg)
      | None \<Rightarrow>
         (case getBinaryDataBuffer ex itemIndex propertyName of
            Inl msg \<Rightarrow> Inl (InputError msg)
          | Inr buffer \<Rightarrow>
             (let binaryData = inputBinary ex itemIndex propertyName;
                  hash = md5 buffer;
                  mime' = (case binaryData of
                             None \<Rightarrow> ''application/octet-stream''
                           | Some b \<Rightarrow> orElse (mimeType b) ''application/octet-stream'');
                  data' = \<lparr>body = buffer, data_size = length buffer, bodyHash = hash\<rparr>;
                  fileNameValue =
                    (case binaryData of
                       None \<Rightarrow> propertyName
                     | Some b \<Rightarrow>
                        (case fileName b of
                           Some f \<Rightarrow> f
                         | None \<Rightarrow> (case file_name b of Some f \<Rightarrow> f | None \<Rightarrow> propertyName)));
                  attributes' = \<lparr>attr_fileName = fileNameValue\<rparr>;
                  resource' = \<lparr>data = data', mime = mime', res_attributes = attributes'\<rparr>
              in buildLoop md5 ex itemIndex rest (rs @ [resource']) (ts @ [mediaTag mime' hash]))))"

definition buildResourcesFromBinary ::
  "(byte list \<Rightarrow> byte list) \<Rightarrow> executor \<Rightarrow> nat \<Rightarrow> string list \<Rightarrow> node_error + resource_build_result" where
  "buildResourcesFromBinary md5 ex itemIndex propertyNames = buildLoop md5 ex itemIndex propertyNames [] []"


section \<open>\<open>nodes/Evernote/Evernote.node.ts\<close>\<close>

definition splitTags :: "string \<Rightarrow> string list" where
  "splitTags raw = filter (\<lambda>tag. length tag > 0) (map trim (splitOn (CHR '','') raw))"

subsection \<open>Objects and \<open>Object.assign\<close>\<close>

text \<open>
  A JSON value as \<open>JSON.parse\<close> returns it; a number is kept as its text. The object
  value \<open>JObject\<close> lists the own properties of the object (all of them enumerable,
  writable data properties), \<open>__proto__\<close> included when the text has that name: the
  parser defines it as an own property.
\<close>

datatype js_value =
    JNull
  | JBool bool
  | JNumber string
  | JString string
  | JArray "js_value list"
  | JObject "(string \<times> js_value) list"

type_synonym property_list = "(string \<times> js_value) list"

text \<open>
  The object \<open>attributesObj\<close>: its own properties in the order of their creation (all
  enumerable; only their number and their values are read, so the order in which
  \<open>Object.keys\<close> would list them is not modelled), and its prototype, which is
  \<open>Object.prototype\<close> for \<open>{}\<close>, and \<open>null\<close> or a parsed object or array after
  an assignment to \<open>__proto__\<close>.
\<close>

datatype js_prototype = ObjectPrototype | NullPrototype | PrototypeValue js_value

record js_object =
  properties :: property_list
  prototype :: js_prototype

definition emptyObject :: js_object where
  \<comment> \<open>\<open>{}\<close>\<close>
  "emptyObject = \<lparr>properties = [], prototype = ObjectPrototype\<rparr>"

fun putProperty :: "string \<Rightarrow> js_value \<Rightarrow> property_list \<Rightarrow> property_list" where
  \<comment> \<open>the value of the own property \<open>k\<close> becomes \<open>v\<close>; a new property goes to the end\<close>
  "putProperty k v [] = [(k, v)]"
| "putProperty k v (p # ps) = (if fst p = k then (k, v) # ps else p # putProperty k v ps)"

text \<open>
  Whether an assignment to \<open>__proto__\<close>, on an object without an own property of that
  name, arrives at the accessor \<open>__proto__\<close> of \<open>Object.prototype\<close>: not when the
  prototype is \<open>null\<close>, and not when the prototype is a parsed object with an own
  property \<open>__proto__\<close> (a data property, found first). A parsed object or array
  inherits from \<open>Object.prototype\<close> (an array through \<open>Array.prototype\<close>).
\<close>

fun protoSetterReached :: "js_prototype \<Rightarrow> bool" where
  "protoSetterReached ObjectPrototype = True"
| "protoSetterReached NullPrototype = False"
| "protoSetterReached (PrototypeValue (JObject ps)) = (''__proto__'' \<notin> set (map fst ps))"
| "protoSetterReached (PrototypeValue v) = True"

text \<open>
  \<open>obj[k] = v\<close>, the \<open>[[Set]]\<close> that \<open>Object.assign\<close> performs for every property it
  copies. An own property is overwritten. Otherwise the name \<open>__proto__\<close>, when it
  arrives at the accessor of \<open>Object.prototype\<close>, creates no property: the setter
  makes an object, an array or \<open>null\<close> the prototype and ignores any other value.
  Every other name finds at most writable data properties on the prototype chain, and a
  new own property is created.
\<close>

definition setProperty :: "string \<Rightarrow> js_value \<Rightarrow> js_object \<Rightarrow> js_object" where
  "setProperty k v obj =
     (if k = ''__proto__'' \<and> k \<notin> set (map fst (properties obj)) \<and> protoSetterReached (prototype obj)
      then (case v of
              JObject ps \<Rightarrow> obj\<lparr>prototype := PrototypeValue v\<rparr>
            | JArray vs \<Rightarrow> obj\<lparr>prototype := PrototypeValue v\<rparr>
            | JNull \<Rightarrow> obj\<lparr>prototype := NullPrototype\<rparr>
            | _ \<Rightarrow> obj)
      else obj\<lparr>properties := putProperty k v (properties obj)\<rparr>)"

fun showDigits :: "nat \<Rightarrow> nat \<Rightarrow> string" where
  \<comment> \<open>the decimal digits of \<open>n\<close>; the first argument bounds their number\<close>
  "showDigits 0 n = []"
| "showDigits (Suc fuel) n =
     (if n < 10 then [hexDigit n] else showDigits fuel (n div 10) @ [hexDigit (n mod 10)])"

definition indexKey :: "nat \<Rightarrow> string" where
  \<comment> \<open>the property name of an array index\<close>
  "indexKey n = showDigits (Suc n) n"

fun ownProperties :: "js_value \<Rightarrow> property_list" where
  \<comment> \<open>the own enumerable properties \<open>Object.assign\<close> copies from a source value\<close>
  "ownProperties (JObject ps) = ps"
| "ownProperties (JArray vs) = map (\<lambda>i. (indexKey i, vs ! i)) [0..<length vs]"
| "ownProperties (JString s) = map (\<lambda>i. (indexKey i, JString [s ! i])) [0..<length s]"
| "ownProperties v = []"

definition Object_assign :: "js_object \<Rightarrow> property_list \<Rightarrow> js_object" where
  \<comment> \<open>\<open>Object.assign(target, source)\<close>, the source given by its own enumerable properties\<close>
  "Object_assign target source = fold (\<lambda>(k, v). setProperty k v) source target"

text \<open>
  The attribute merge of the create and the update branch (the same statements in both):
  \<open>JSON_parse\<close> is \<open>JSON.parse\<close>, \<open>None\<close> when it throws. The result is the argument
  of \<open>new NoteAttributes\<close>, or \<open>None\<close> when \<open>attributes\<close> stays undefined.
\<close>

definition mergeAttributes ::
  "(string \<Rightarrow> js_value option) \<Rightarrow> string \<Rightarrow> property_list \<Rightarrow> node_error + js_object option" where
  "mergeAttributes JSON_parse attributesJson noteAttributesUi =
     (case (if attributesJson \<noteq> []
            then (case JSON_parse attributesJson of
                    None \<Rightarrow> Inl InvalidAttributesJson
                  | Some parsed \<Rightarrow> Inr (Object_assign emptyObject (ownProperties parsed)))
            else Inr emptyObject) of
        Inl e \<Rightarrow> Inl e
      | Inr attributesObj \<Rightarrow>
         (let attributesObj' =
                (if length noteAttributesUi > 0 then Object_assign attributesObj noteAttributesUi
                 else attributesObj)
          in Inr (if length (properties attributesObj') > 0 then Some attributesObj' else None)))"

subsection \<open>Parameters, note store and the note sent\<close>

text \<open>
  The node parameters of one item, under the names of the local variables of
  \<open>execute\<close> that hold them.
\<close>

record parameters =
  titleParam :: string
  noteGuid :: string
  contentEditingMode :: string
  contentMode :: string
  plainContent :: string
  htmlContent :: string
  notebookGuidParam :: string
  tagsRaw :: string
  tagsMode :: string
  titleUpdate :: string
  notebookGuidUpdate :: string
  attributesJson :: string
  noteAttributesUi :: property_list
  searchValue :: string
  useRegex :: bool
  caseSensitive :: bool
  addAttachments :: bool
  binaryPropertyNamesRaw :: string

text \<open>The fields of a fetched note that the update branch reads.\<close>

record existing_note =
  existing_title :: "string option"
  existing_content :: "string option"

text \<open>The argument of \<open>new EvernoteSDK.Types.Note\<close>; an absent key is \<open>None\<close>.\<close>

record note_data =
  guid :: "string option"
  title :: "string option"
  content :: string
  notebookGuid :: "string option"
  resources :: "resource list option"
  tagNames :: "string list option"
  attributes :: "js_object option"

datatype store_call =
    GetNote string bool
  | GetNoteTagNames string
  | CreateNote note_data
  | UpdateNote note_data

text \<open>
  What the item's branch depends on besides its parameters: the executor, the note store
  (\<open>getNote(guid, withContent, false, false, false)\<close> and \<open>getNoteTagNames\<close>, each
  failing with a message or returning), and the library functions. \<open>env_RegExp\<close> is
  the constructor \<open>new RegExp(pattern, flags)\<close> of the runtime on the patterns that
  \<open>parsePattern\<close> leaves open: \<open>RegExpSyntaxError\<close> when it throws a
  \<open>SyntaxError\<close> there, and when it returns, the regular expression returned, or
  \<open>RegExpNotModelled\<close> for one that the type \<open>regex\<close> cannot express.
\<close>

record environment =
  env_executor :: executor
  env_itemIndex :: nat
  env_md5 :: "byte list \<Rightarrow> byte list"
  env_sanitizeHtml :: "string \<Rightarrow> string"
  env_JSON_parse :: "string \<Rightarrow> js_value option"
  env_RegExp :: "string \<Rightarrow> string \<Rightarrow> regexp_result"
  env_getNote :: "string \<Rightarrow> bool \<Rightarrow> string + existing_note"
  env_getNoteTagNames :: "string \<Rightarrow> string + string list"

definition buildAttachments :: "environment \<Rightarrow> parameters \<Rightarrow> node_error + resource_build_result option" where
  \<comment> \<open>\<open>addAttachments ? await buildResourcesFromBinary(...) : undefined\<close>\<close>
  "buildAttachments env p =
     (if addAttachments p
      then (case buildResourcesFromBinary (env_md5 env) (env_executor env) (env_itemIndex env)
                   (parseBinaryPropertyNames (Some (binaryPropertyNamesRaw p))) of
              Inl e \<Rightarrow> Inl e
            | Inr r \<Rightarrow> Inr (Some r))
      else Inr None)"

definition attachmentTags :: "resource_build_result option \<Rightarrow> string list" where
  \<comment> \<open>the tags behind \<open>attachmentResult?.mediaTags?.length\<close>\<close>
  "attachmentTags attachmentResult = (case attachmentResult of None \<Rightarrow> [] | Some r \<Rightarrow> mediaTags r)"

definition encodeContent :: "environment \<Rightarrow> parameters \<Rightarrow> string" where
  \<comment> \<open>\<open>contentMode === 'html' ? sanitizeHtmlToEnml(htmlContent) : plainTextToEnml(plainContent)\<close>\<close>
  "encodeContent env p =
     (if contentMode p = ''html'' then sanitizeHtmlToEnml (env_sanitizeHtml env) (htmlContent p)
      else plainTextToEnml (plainContent p))"

definition withMedia :: "string \<Rightarrow> string list \<Rightarrow> string" where
  \<comment> \<open>the media tags, when there are any, go behind the body and the result is wrapped again\<close>
  "withMedia newContent tags =
     (if length tags > 0 then wrapEnmlBody (extractEnmlBody newContent @ concat tags)
      else newContent)"

definition escapeRegExp :: "string \<Rightarrow> string" where
  \<comment> \<open>\<open>searchValue.replace(/[.*+?^${}()|[\]\\]/g, '\\$&')\<close>\<close>
  "escapeRegExp v =
     regexReplaceAll False
       (Atom (Cls False (map CChar (''.*+?^${}()|[]'' @ [CHR 0x5C]))))
       ([CHR 0x5C] @ ''$&'') [] v"

text \<open>
  \<open>new RegExp(pattern, flags)\<close> at its call in the search and replace mode: decided
  by \<open>RegExp_new\<close> for a pattern of the modelled part of the grammar, and by the runtime
  for every other pattern.
\<close>

definition newRegExp :: "environment \<Rightarrow> string \<Rightarrow> string \<Rightarrow> regexp_result" where
  "newRegExp env pat flags =
     (case RegExp_new pat flags of
        RegExpNotModelled \<Rightarrow> env_RegExp env pat flags
      | r \<Rightarrow> r)"

text \<open>
  The content of the updated note by editing mode. \<open>None\<close>: the search pattern compiles
  to a regular expression that is not modelled, so the result of the replacement is left
  open.
\<close>

definition editContent :: "environment \<Rightarrow> parameters \<Rightarrow> existing_note \<Rightarrow> (node_error + string) option" where
  "editContent env p existingNote =
     (if contentEditingMode p = ''keep'' then
        Some (Inr (orElse (existing_content existingNote) (wrapEnmlBody [])))
      else if contentEditingMode p = ''replace'' then
        Some (Inr (encodeContent env p))
      else if contentEditingMode p = ''append'' then
        (let existingBody = extractEnmlBody (orElse (existing_content existingNote) []);
             newPart = encodeContent env p;
             newBody = extractEnmlBody newPart;
             combined = existingBody @ newBody
         in Some (Inr (wrapEnmlBody combined)))
      else if contentEditingMode p = ''searchReplace'' then
        (let existingBody = extractEnmlBody (orElse (existing_content existingNote) [])
         in if searchValue p = [] then Some (Inl SearchValueRequired)
            else
              (let pat = (if \<not> useRegex p then escapeRegExp (searchValue p) else searchValue p)
               in case newRegExp env pat (if caseSensitive p then ''g'' else ''gi'') of
                    RegExpSyntaxError \<Rightarrow> Some (Inl InvalidRegularExpression)
                  | RegExpNotModelled \<Rightarrow> None
                  | RegExp regex' \<Rightarrow>
                      (let replaceValue = (if contentMode p = ''html'' then htmlContent p else plainContent p);
                           replacedBody = stringReplace existingBody regex' replaceValue
                       in Some (Inr (wrapEnmlBody replacedBody)))))
      else Some (Inr []))"

fun setToArray :: "'a list \<Rightarrow> 'a list \<Rightarrow> 'a list" where
  \<comment> \<open>\<open>[...new Set(xs)]\<close>: the first occurrence of each element, in order; \<open>seen\<close> starts empty\<close>
  "setToArray seen [] = []"
| "setToArray seen (x # xs) = (if x \<in> set seen then setToArray seen xs else x # setToArray (x # seen) xs)"

text \<open>
  The tag names of the updated note and the store calls made for them. In mode
  \<open>ignore\<close> the list stays empty and is not sent (see \<open>update\<close>).
\<close>

definition reconcileTags :: "environment \<Rightarrow> parameters \<Rightarrow> store_call list \<times> (node_error + string list)" where
  "reconcileTags env p =
     (let tagNames0 = (if tagsMode p \<noteq> ''ignore'' then splitTags (tagsRaw p) else [])
      in if tagsMode p = ''add'' \<or> tagsMode p = ''remove'' then
           (case env_getNoteTagNames env (noteGuid p) of
              Inl msg \<Rightarrow> ([GetNoteTagNames (noteGuid p)], Inl (RemoteServiceError msg))
            | Inr existingTagNames \<Rightarrow>
                ([GetNoteTagNames (noteGuid p)],
                 Inr (if tagsMode p = ''add'' then setToArray [] (existingTagNames @ tagNames0)
                      else filter (\<lambda>tag. tag \<notin> set tagNames0) existingTagNames)))
         else ([], Inr tagNames0))"

text \<open>
  The second argument of \<open>noteStore.getNote\<close> in the update branch:
  \<open>needsExistingContent || !titleUpdate\<close>.
\<close>

definition fetchWithContent :: "parameters \<Rightarrow> bool" where
  "fetchWithContent p =
     (let needsExistingContent = (contentEditingMode p \<in> set [''keep'', ''append'', ''searchReplace''])
      in needsExistingContent \<or> titleUpdate p = [])"

text \<open>
  \<open>noteData\<close> of the update branch, from the attachment result, the fetched note, the
  content by editing mode, the tag names and the attributes.
\<close>

definition updateNoteData ::
  "parameters \<Rightarrow> resource_build_result option \<Rightarrow> existing_note \<Rightarrow> string \<Rightarrow> string list
   \<Rightarrow> js_object option \<Rightarrow> note_data" where
  "updateNoteData p attachmentResult existingNote newContent0 tagNames' attributes' =
     \<lparr>guid = Some (noteGuid p),
      title = (if titleUpdate p \<noteq> [] then Some (titleUpdate p) else existing_title existingNote),
      content = withMedia newContent0 (attachmentTags attachmentResult),
      notebookGuid = (if notebookGuidUpdate p \<noteq> [] then Some (notebookGuidUpdate p) else None),
      resources = map_option built_resources attachmentResult,
      tagNames = (if tagsMode p \<noteq> ''ignore'' then Some tagNames' else None),
      attributes = attributes'\<rparr>"

text \<open>
  The update branch of \<open>execute\<close> for one item, up to and including the call
  \<open>noteStore.updateNote(note)\<close>: the calls made to the note store in order, and either the
  error thrown or the note passed to \<open>updateNote\<close>. \<open>None\<close> as for \<open>editContent\<close>.
\<close>

definition update :: "environment \<Rightarrow> parameters \<Rightarrow> (store_call list \<times> (node_error + note_data)) option" where
  "update env p =
     (case buildAttachments env p of
        Inl e \<Rightarrow> Some ([], Inl e)
      | Inr attachmentResult \<Rightarrow>
         (case env_getNote env (noteGuid p) (fetchWithContent p) of
            Inl msg \<Rightarrow> Some ([GetNote (noteGuid p) (fetchWithContent p)], Inl (RemoteServiceError msg))
          | Inr existingNote \<Rightarrow>
             (case editContent env p existingNote of
                None \<Rightarrow> None
              | Some (Inl e) \<Rightarrow> Some ([GetNote (noteGuid p) (fetchWithContent p)], Inl e)
              | Some (Inr newContent0) \<Rightarrow>
                 (case reconcileTags env p of
                    (calls, Inl e) \<Rightarrow> Some (GetNote (noteGuid p) (fetchWithContent p) # calls, Inl e)
                  | (calls, Inr tagNames') \<Rightarrow>
                     (case mergeAttributes (env_JSON_parse env) (attributesJson p) (noteAttributesUi p) of
                        Inl e \<Rightarrow> Some (GetNote (noteGuid p) (fetchWithContent p) # calls, Inl e)
                      | Inr attributes' \<Rightarrow>
                         (let noteData = updateNoteData p attachmentResult existingNote newContent0
                                           tagNames' attributes'
                          in Some (GetNote (noteGuid p) (fetchWithContent p) # calls @ [UpdateNote noteData],
                                   Inr noteData)))))))"



section \<open>Sample inputs\<close>

text \<open>An item with two binary properties, and a stand-in for the digest function.\<close>

definition demoExecutor :: executor where
  "demoExecutor =
     \<lparr>assertBinaryData =
        (\<lambda>i name. if name = ''data'' \<or> name = ''scan'' then None else Some ''no binary data''),
      getBinaryDataBuffer =
        (\<lambda>i name. if name = ''data'' then Inr [0x68, 0x69]
                   else if name = ''scan'' then Inr [0xFF] else Inl ''no binary data''),
      inputBinary =
        (\<lambda>i name. if name = ''data''
                   then Some \<lparr>mimeType = Some ''text/plain'', fileName = Some ''hi.txt'', file_name = None\<rparr>
                   else if name = ''scan''
                   then Some \<lparr>mimeType = None, fileName = None, file_name = None\<rparr>
                   else None)\<rparr>"

definition demoDigest :: "byte list \<Rightarrow> byte list" where
  "demoDigest buffer = map (\<lambda>b. b + 1) buffer"

definition demoBuilt :: resource_build_result where
  "demoBuilt =
     \<lparr>built_resources =
        [\<lparr>data = \<lparr>body = [0x68, 0x69], data_size = 2, bodyHash = [0x69, 0x6A]\<rparr>,
          mime = ''text/plain'', res_attributes = \<lparr>attr_fileName = ''hi.txt''\<rparr>\<rparr>,
         \<lparr>data = \<lparr>body = [0xFF], data_size = 1, bodyHash = [0]\<rparr>,
          mime = ''application/octet-stream'', res_attributes = \<lparr>attr_fileName = ''scan''\<rparr>\<rparr>],
      mediaTags =
        [''<en-media type='' @ [CHR 0x22] @ ''text/plain'' @ [CHR 0x22]
           @ '' hash='' @ [CHR 0x22] @ ''696a'' @ [CHR 0x22] @ '' />'',
         ''<en-media type='' @ [CHR 0x22] @ ''application/octet-stream'' @ [CHR 0x22]
           @ '' hash='' @ [CHR 0x22] @ ''00'' @ [CHR 0x22] @ '' />'']\<rparr>"

section \<open>Auxiliary notions for the statements\<close>

text \<open>
  \<open>ciPrefix p s\<close>: \<open>s\<close> starts with \<open>p\<close> up to letter case; \<open>occursCI p s\<close>: \<open>p\<close>
  occurs in \<open>s\<close> up to letter case.
\<close>

definition ciPrefix :: "string \<Rightarrow> string \<Rightarrow> bool" where
  "ciPrefix p s = (length p \<le> length s \<and> map toUpperCase (take (length p) s) = map toUpperCase p)"

fun occursCI :: "string \<Rightarrow> string \<Rightarrow> bool" where
  "occursCI p [] = ciPrefix p []"
| "occursCI p (c # t) = (ciPrefix p (c # t) \<or> occursCI p t)"

text \<open>No \<open><\<close> of the text is followed directly by an \<open>e\<close> or \<open>E\<close>, nor is it last.\<close>

fun safePrefix :: "string \<Rightarrow> bool" where
  "safePrefix [] = True"
| "safePrefix [c] = (c \<noteq> CHR ''<'')"
| "safePrefix (c # d # t) = ((c = CHR ''<'' \<longrightarrow> toUpperCase d \<noteq> CHR ''E'') \<and> safePrefix (d # t))"

text \<open>
  Following the spec's words for \<open>fromPlainText\<close>: the characters \<open>& < > "\<close> are
  escaped, a line break (\<open>\n\<close> or \<open>\r\n\<close>) becomes one inline break element, every
  other character stays. \<open>plainTokens\<close> gives the pieces of the body in order.
\<close>

definition escapeXmlChar :: "char \<Rightarrow> string" where
  "escapeXmlChar c =
     (if c = CHR ''&'' then ''&amp;''
      else if c = CHR ''<'' then ''&lt;''
      else if c = CHR ''>'' then ''&gt;''
      else if c = CHR 0x22 then ''&quot;''
      else [c])"

fun plainTokens :: "string \<Rightarrow> string list" where
  "plainTokens [] = []"
| "plainTokens [c] = [if c = CHR 0x0A then ''<br />'' else escapeXmlChar c]"
| "plainTokens (c # d # t) =
     (if c = CHR 0x0A then ''<br />'' # plainTokens (d # t)
      else if c = CHR 0x0D \<and> d = CHR 0x0A then ''<br />'' # plainTokens t
      else escapeXmlChar c # plainTokens (d # t))"

definition plainToken :: "string \<Rightarrow> bool" where
  \<comment> \<open>an entity, a break element, or one character that is none of \<open>& < > "\<close>\<close>
  "plainToken tok =
     (tok \<in> set [''&amp;'', ''&lt;'', ''&gt;'', ''&quot;'', ''<br />'']
      \<or> (length tok = 1 \<and> hd tok \<notin> set (''&<>'' @ [CHR 0x22])))"

text \<open>The effect of replacing \<open>/\r?\n/g\<close> by \<open><br />\<close>, as a recursion over the text.\<close>

fun convertLineBreaks :: "string \<Rightarrow> string" where
  "convertLineBreaks [] = []"
| "convertLineBreaks [c] = (if c = CHR 0x0A then ''<br />'' else [c])"
| "convertLineBreaks (c # d # t) =
     (if c = CHR 0x0A then ''<br />'' @ convertLineBreaks (d # t)
      else if c = CHR 0x0D \<and> d = CHR 0x0A then ''<br />'' @ convertLineBreaks t
      else c # convertLineBreaks (d # t))"

text \<open>
  A note store with one note \<open>n1\<close>, and a stand-in for \<open>JSON.parse\<close> that agrees
  with it on the texts it is applied to below (two object texts and \<open>{\<close>).
\<close>

definition demoJsonText :: string where
  "demoJsonText = ''{'' @ [CHR 0x22] @ ''author'' @ [CHR 0x22] @ '':'' @ [CHR 0x22] @ ''X'' @ [CHR 0x22] @ '',''
                  @ [CHR 0x22] @ ''source'' @ [CHR 0x22] @ '':'' @ [CHR 0x22] @ ''json'' @ [CHR 0x22] @ ''}''"

text \<open>A JSON text whose only property is named \<open>__proto__\<close>.\<close>

definition demoProtoJsonText :: string where
  "demoProtoJsonText = ''{'' @ [CHR 0x22] @ ''__proto__'' @ [CHR 0x22] @ '':{'' @ [CHR 0x22] @ ''author''
                       @ [CHR 0x22] @ '':'' @ [CHR 0x22] @ ''X'' @ [CHR 0x22] @ ''}}''"

definition demoJsonParse :: "string \<Rightarrow> js_value option" where
  "demoJsonParse s =
     (if s = demoJsonText then Some (JObject [(''author'', JString ''X''), (''source'', JString ''json'')])
      else if s = demoProtoJsonText then Some (JObject [(''__proto__'', JObject [(''author'', JString ''X'')])])
      else None)"

text \<open>
  A stand-in for the constructor of the runtime outside the modelled grammar. It agrees
  with the runtime on the patterns it is applied to below: \<open>(\<close>, \<open>[a\<close> and \<open>*\<close>,
  which are rejected (an unterminated group, an unterminated class, a quantifier with
  nothing to repeat), and \<open>(a)\<close>, which compiles.
\<close>

definition demoRegExp :: "string \<Rightarrow> string \<Rightarrow> regexp_result" where
  "demoRegExp pat flags =
     (if pat \<in> set [''('', ''[a'', ''*''] then RegExpSyntaxError else RegExpNotModelled)"

definition demoEnv :: environment where
  "demoEnv =
     \<lparr>env_executor = demoExecutor,
      env_itemIndex = 0,
      env_md5 = demoDigest,
      env_sanitizeHtml = (\<lambda>html. html),
      env_JSON_parse = demoJsonParse,
      env_RegExp = demoRegExp,
      env_getNote =
        (\<lambda>g withContent.
           if g = ''n1''
           then Inr \<lparr>existing_title = Some ''Prices'',
                     existing_content = (if withContent then Some (wrapEnmlBody ''price: $5.00'') else None)\<rparr>
           else Inl ''EDAMNotFoundException''),
      env_getNoteTagNames = (\<lambda>g. if g = ''n1'' then Inr [''a'', ''b''] else Inl ''EDAMNotFoundException'')\<rparr>"

definition demoParams :: parameters where
  "demoParams =
     \<lparr>titleParam = ''New note'', noteGuid = ''n1'', contentEditingMode = ''replace'',
      contentMode = ''plainText'', plainContent = ''hello'', htmlContent = [],
      notebookGuidParam = [], tagsRaw = ''b,c'', tagsMode = ''replace'', titleUpdate = [],
      notebookGuidUpdate = [], attributesJson = [], noteAttributesUi = [], searchValue = [],
      useRegex = False, caseSensitive = False, addAttachments = False,
      binaryPropertyNamesRaw = ''data''\<rparr>"

definition demoExisting :: existing_note where
  "demoExisting = \<lparr>existing_title = Some ''Prices'', existing_content = Some (wrapEnmlBody ''price: $5.00'')\<rparr>"

definition demoKeepParams :: parameters where
  "demoKeepParams =
     demoParams\<lparr>contentEditingMode := ''keep'', addAttachments := True,
                 binaryPropertyNamesRaw := ''data, scan''\<rparr>"

definition demoReplaceParams :: parameters where
  "demoReplaceParams = demoParams\<lparr>addAttachments := True, binaryPropertyNamesRaw := ''data, scan''\<rparr>"

definition demoOtherEnv :: environment where
  "demoOtherEnv =
     demoEnv\<lparr>env_getNote :=
        (\<lambda>g withContent. Inr \<lparr>existing_title = Some ''Other'', existing_content = Some ''<en-note>other</en-note>''\<rparr>)\<rparr>"

text \<open>\<open>Array.prototype.join\<close> with a one-character separator, to state what \<open>splitOn\<close> returns.\<close>

fun joinWith :: "char \<Rightarrow> string list \<Rightarrow> string" where
  "joinWith sep [] = []"
| "joinWith sep [x] = x"
| "joinWith sep (x # y # ys) = x @ sep # joinWith sep (y # ys)"

definition demoTagParams :: "string \<Rightarrow> string \<Rightarrow> parameters" where
  "demoTagParams mode raw = demoParams\<lparr>tagsMode := mode, tagsRaw := raw\<rparr>"



text \<open>\<open>attributes\<close> stays undefined when the merged object has no keys.\<close>

definition finishAttributes :: "js_object \<Rightarrow> js_object option" where
  "finishAttributes m = (if properties m = [] then None else Some m)"





text \<open>
  Replacing every occurrence of a literal search text, read from left to right without
  overlaps, with the letter case ignored when \<open>ic\<close> holds. This is the reading of
  ``replaces all occurrences of the search value with the replacement value'' that the
  search and replace mode is compared with; it is not taken from the code.
\<close>

definition matchesAt :: "bool \<Rightarrow> string \<Rightarrow> string \<Rightarrow> bool" where
  "matchesAt ic v s =
     (length v \<le> length s \<and> map (Canonicalize ic) (take (length v) s) = map (Canonicalize ic) v)"

fun replaceOccurrences :: "bool \<Rightarrow> string \<Rightarrow> string \<Rightarrow> string \<Rightarrow> string" where
  "replaceOccurrences ic v r [] = []"
| "replaceOccurrences ic v r (c # t) =
     (if v \<noteq> [] \<and> matchesAt ic v (c # t)
      then r @ replaceOccurrences ic v r (drop (length v - 1) t)
      else c # replaceOccurrences ic v r t)"

text \<open>Parameters of a search and replace update of the note \<open>n1\<close>.\<close>

definition demoSearchParams :: "string \<Rightarrow> string \<Rightarrow> bool \<Rightarrow> parameters" where
  "demoSearchParams search replacement regex =
     demoParams\<lparr>contentEditingMode := ''searchReplace'', searchValue := search,
                 plainContent := replacement, useRegex := regex\<rparr>"

section \<open>Attachments: the hash of a resource and of its media tag\<close>

lemma buildLoop_result:
  assumes "buildLoop md5 ex i names rs ts = Inr r"
  shows "\<exists>R T. built_resources r = rs @ R \<and> mediaTags r = ts @ T
           \<and> length R = length names \<and> length T = length names
           \<and> (\<forall>k < length names.
                 getBinaryDataBuffer ex i (names ! k) = Inr (body (data (R ! k)))
               \<and> bodyHash (data (R ! k)) = md5 (body (data (R ! k)))
               \<and> data_size (data (R ! k)) = length (body (data (R ! k)))
               \<and> T ! k = mediaTag (mime (R ! k)) (bodyHash (data (R ! k))))"
  using assms
proof (induction names arbitrary: rs ts)
  case Nil
  then show ?case by auto
next
  case (Cons n ns)
  from Cons.prems obtain buffer where
    ok: "assertBinaryData ex i n = None" and buf: "getBinaryDataBuffer ex i n = Inr buffer"
    by (auto split: option.splits sum.splits)
  define mime' where "mime' =
    (case inputBinary ex i n of None \<Rightarrow> ''application/octet-stream''
     | Some b \<Rightarrow> orElse (mimeType b) ''application/octet-stream'')"
  define fn where "fn =
    (case inputBinary ex i n of None \<Rightarrow> n
     | Some b \<Rightarrow> (case fileName b of Some f \<Rightarrow> f
                  | None \<Rightarrow> (case file_name b of Some f \<Rightarrow> f | None \<Rightarrow> n)))"
  define res where "res =
    \<lparr>data = \<lparr>body = buffer, data_size = length buffer, bodyHash = md5 buffer\<rparr>,
     mime = mime', res_attributes = \<lparr>attr_fileName = fn\<rparr>\<rparr>"
  define tag where "tag = mediaTag mime' (md5 buffer)"
  have rec: "buildLoop md5 ex i ns (rs @ [res]) (ts @ [tag]) = Inr r"
    using Cons.prems ok buf by (simp add: Let_def res_def mime'_def fn_def tag_def)
  have res: "body (data res) = buffer" "bodyHash (data res) = md5 buffer"
            "data_size (data res) = length buffer"
            "tag = mediaTag (mime res) (md5 buffer)"
    by (simp_all add: res_def tag_def)
  from Cons.IH [OF rec] obtain R T where
    RT: "built_resources r = (rs @ [res]) @ R" "mediaTags r = (ts @ [tag]) @ T"
        "length R = length ns" "length T = length ns"
        "\<forall>k < length ns.
            getBinaryDataBuffer ex i (ns ! k) = Inr (body (data (R ! k)))
          \<and> bodyHash (data (R ! k)) = md5 (body (data (R ! k)))
          \<and> data_size (data (R ! k)) = length (body (data (R ! k)))
          \<and> T ! k = mediaTag (mime (R ! k)) (bodyHash (data (R ! k)))"
    by blast
  have "\<forall>k < length (n # ns).
            getBinaryDataBuffer ex i ((n # ns) ! k) = Inr (body (data ((res # R) ! k)))
          \<and> bodyHash (data ((res # R) ! k)) = md5 (body (data ((res # R) ! k)))
          \<and> data_size (data ((res # R) ! k)) = length (body (data ((res # R) ! k)))
          \<and> (tag # T) ! k = mediaTag (mime ((res # R) ! k)) (bodyHash (data ((res # R) ! k)))"
  proof (intro allI impI)
    fix k assume "k < length (n # ns)"
    then show "getBinaryDataBuffer ex i ((n # ns) ! k) = Inr (body (data ((res # R) ! k)))
          \<and> bodyHash (data ((res # R) ! k)) = md5 (body (data ((res # R) ! k)))
          \<and> data_size (data ((res # R) ! k)) = length (body (data ((res # R) ! k)))
          \<and> (tag # T) ! k = mediaTag (mime ((res # R) ! k)) (bodyHash (data ((res # R) ! k)))"
      using RT(5) buf res by (cases k) auto
  qed
  moreover have "built_resources r = rs @ (res # R)" "mediaTags r = ts @ (tag # T)"
    using RT by simp_all
  moreover have "length (res # R) = length (n # ns)" "length (tag # T) = length (n # ns)"
    using RT by simp_all
  ultimately show ?case by blast
qed

lemma demo_build:
  "buildResourcesFromBinary demoDigest demoExecutor 0 [''data'', ''scan''] = Inr demoBuilt"
  by (simp add: buildResourcesFromBinary_def demoExecutor_def demoDigest_def orElse_def
                mediaTag_def toHex_def hexDigit_def demoBuilt_def)

text \<open>
  Claim C1. Whenever \<open>buildResourcesFromBinary\<close> returns, it returns as many resources
  and as many media tags as there are property names, in their order; the \<open>k\<close>-th
  resource carries the raw bytes of the \<open>k\<close>-th binary input and, as \<open>bodyHash\<close>, the
  digest of exactly these bytes; and the \<open>k\<close>-th media tag is the \<open>en-media\<close> element
  whose \<open>hash\<close> attribute is the hex encoding of that same \<open>bodyHash\<close>.
\<close>

theorem buildResourcesFromBinary_hash_binding:
  assumes "buildResourcesFromBinary md5 ex i propertyNames = Inr r"
  shows "length (built_resources r) = length propertyNames
       \<and> length (mediaTags r) = length propertyNames
       \<and> (\<forall>k < length propertyNames.
             getBinaryDataBuffer ex i (propertyNames ! k) = Inr (body (data (built_resources r ! k)))
           \<and> bodyHash (data (built_resources r ! k)) = md5 (body (data (built_resources r ! k)))
           \<and> mediaTags r ! k =
               ''<en-media type='' @ [CHR 0x22] @ mime (built_resources r ! k) @ [CHR 0x22]
               @ '' hash='' @ [CHR 0x22] @ toHex (bodyHash (data (built_resources r ! k)))
               @ [CHR 0x22] @ '' />'')"
  using buildLoop_result [of md5 ex i propertyNames "[]" "[]" r] assms
  unfolding buildResourcesFromBinary_def mediaTag_def by auto

theorem buildResourcesFromBinary_hash_binding_witness:
  "buildResourcesFromBinary demoDigest demoExecutor 0 [''data'', ''scan''] = Inr demoBuilt
   \<and> length (built_resources demoBuilt) = 2 \<and> length (mediaTags demoBuilt) = 2
   \<and> bodyHash (data (built_resources demoBuilt ! 1)) = demoDigest [0xFF]
   \<and> mediaTags demoBuilt ! 1 =
        ''<en-media type='' @ [CHR 0x22] @ ''application/octet-stream'' @ [CHR 0x22]
        @ '' hash='' @ [CHR 0x22] @ toHex (demoDigest [0xFF]) @ [CHR 0x22] @ '' />''"
proof -
  have h: "buildResourcesFromBinary demoDigest demoExecutor 0 [''data'', ''scan''] = Inr demoBuilt"
    by (rule demo_build)
  note t = buildResourcesFromBinary_hash_binding [OF h]
  have second: "body (data (built_resources demoBuilt ! 1)) = [0xFF]"
               "mime (built_resources demoBuilt ! 1) = ''application/octet-stream''"
    by (simp_all add: demoBuilt_def)
  from t have "length (built_resources demoBuilt) = 2" "length (mediaTags demoBuilt) = 2"
    by simp_all
  moreover from t [THEN conjunct2, THEN conjunct2, rule_format, of 1]
  have "bodyHash (data (built_resources demoBuilt ! 1)) = demoDigest [0xFF]"
       "mediaTags demoBuilt ! 1 =
        ''<en-media type='' @ [CHR 0x22] @ ''application/octet-stream'' @ [CHR 0x22]
        @ '' hash='' @ [CHR 0x22] @ toHex (demoDigest [0xFF]) @ [CHR 0x22] @ '' />''"
    using second by simp_all
  ultimately show ?thesis using h by simp
qed

section \<open>The matcher on the patterns of \<open>utils.ts\<close>\<close>

declare regexSearch.simps [simp del] regexReplaceAll.simps [simp del]

lemma toUpperCase_range:
  "toUpperCase c = c \<or> (65 \<le> (of_char (toUpperCase c) :: nat) \<and> (of_char (toUpperCase c) :: nat) \<le> 222)"
  by (auto simp: toUpperCase_def Let_def)

lemma toUpperCase_lt: "toUpperCase c = CHR ''<'' \<longleftrightarrow> c = CHR ''<''"
  using toUpperCase_range [of c] by (auto simp: toUpperCase_def Let_def)

lemma toUpperCase_gt: "toUpperCase c = CHR ''>'' \<longleftrightarrow> c = CHR ''>''"
  using toUpperCase_range [of c] by (auto simp: toUpperCase_def Let_def)

lemma ms_lit:
  "ms ic (lit p) s caps =
     (if length p \<le> length s \<and> map (Canonicalize ic) (take (length p) s) = map (Canonicalize ic) p
      then [(drop (length p) s, caps)] else [])"
proof (induction p arbitrary: s)
  case Nil
  then show ?case by simp
next
  case (Cons a p)
  show ?case
  proof (cases s)
    case Nil
    then show ?thesis by simp
  next
    case (Cons c t)
    then show ?thesis using Cons.IH [of t] by auto
  qed
qed


lemma occursCI_iff: "occursCI p s \<longleftrightarrow> (\<exists>k \<le> length s. ciPrefix p (drop k s))"
proof (induction s)
  case Nil
  then show ?case by simp
next
  case (Cons c t)
  show ?case
  proof
    assume "occursCI p (c # t)"
    then consider "ciPrefix p (c # t)" | "occursCI p t" by auto
    then show "\<exists>k \<le> length (c # t). ciPrefix p (drop k (c # t))"
    proof cases
      case 1
      then have "ciPrefix p (drop 0 (c # t))" by simp
      then show ?thesis by blast
    next
      case 2
      with Cons.IH obtain k where "k \<le> length t" "ciPrefix p (drop k t)" by blast
      then have "Suc k \<le> length (c # t)" "ciPrefix p (drop (Suc k) (c # t))" by simp_all
      then show ?thesis by blast
    qed
  next
    assume "\<exists>k \<le> length (c # t). ciPrefix p (drop k (c # t))"
    then obtain k where k: "k \<le> length (c # t)" "ciPrefix p (drop k (c # t))" by blast
    show "occursCI p (c # t)"
    proof (cases k)
      case 0
      with k show ?thesis by simp
    next
      case (Suc j)
      with k have "j \<le> length t" "ciPrefix p (drop j t)" by simp_all
      with Cons.IH show ?thesis by auto
    qed
  qed
qed

lemma ms_enNote_open:
  "ms True (Cat (Star True (Cls True [CChar (CHR ''>'')])) (Cat (Atom (Chr (CHR ''>''))) R)) s caps =
     (case dropWhile (\<lambda>c. c \<noteq> CHR ''>'') s of [] \<Rightarrow> [] | c # body' \<Rightarrow> ms True R body' caps)"
proof (induction s)
  case Nil
  then show ?case by simp
next
  case (Cons c t)
  show ?case
  proof (cases "c = CHR ''>''")
    case True
    then show ?thesis by (simp add: Canonicalize_def)
  next
    case False
    then have "toUpperCase c \<noteq> CHR ''>''" by (simp add: toUpperCase_gt)
    with False Cons.IH show ?thesis
      by (simp add: Canonicalize_def toUpperCase_gt [of "CHR ''>''", simplified])
  qed
qed

lemma ms_lazy_any:
  assumes "\<And>c. amatch ic a c"
  shows "ms ic (Star False a) s caps = map (\<lambda>k. (drop k s, caps)) [0..<Suc (length s)]"
proof (induction s)
  case Nil
  then show ?case by simp
next
  case (Cons c t)
  have "[0..<Suc (length (c # t))] = 0 # map Suc [0..<Suc (length t)]"
    by (simp add: upt_conv_Cons map_Suc_upt del: upt_Suc)
  then show ?case using Cons.IH assms by (simp add: o_def del: upt_Suc)
qed


lemma concat_map_Nil: "(\<And>x. x \<in> set xs \<Longrightarrow> f x = []) \<Longrightarrow> concat (map f xs) = []"
  by (induction xs) auto

lemma no_straddle:
  assumes "\<not> occursCI p b" and "k < length b"
    and border: "toUpperCase (hd p) \<notin> set (map toUpperCase (tl p))"
  shows "\<not> ciPrefix p (drop k b @ p)"
proof
  assume m: "ciPrefix p (drop k b @ p)"
  define u where "u = drop k b"
  have lu: "0 < length u" using assms(2) by (simp add: u_def)
  show False
  proof (cases "length p \<le> length u")
    case True
    with m have "ciPrefix p u" by (simp add: ciPrefix_def u_def)
    with assms(1,2) show False by (auto simp: occursCI_iff u_def intro: exI [of _ k])
  next
    case False
    define j where "j = length u"
    have j: "0 < j" "j < length p" using lu False by (simp_all add: j_def)
    then have pne: "p \<noteq> []" by auto
    from m have eq: "map toUpperCase (take (length p) (u @ p)) = map toUpperCase p"
      by (simp add: ciPrefix_def u_def)
    define w where "w = u @ p"
    have "j < length (take (length p) w)" using j by (simp add: w_def)
    then have "map toUpperCase (take (length p) w) ! j = toUpperCase (w ! j)"
      by (simp only: nth_map nth_take length_take min_less_iff_conj)
    moreover have "w ! j = hd p" using pne by (simp add: w_def j_def nth_append hd_conv_nth)
    moreover have "map toUpperCase p ! j = toUpperCase (p ! j)" using j by simp
    ultimately have "toUpperCase (p ! j) = toUpperCase (hd p)"
      using eq by (simp only: w_def)
    moreover have "p ! j = tl p ! (j - 1)" using j by (simp add: nth_tl)
    moreover have "tl p ! (j - 1) \<in> set (tl p)"
      using j by (intro nth_mem) simp
    ultimately show False using border by (metis image_eqI set_map)
  qed
qed

lemma Canonicalize_True: "Canonicalize True = toUpperCase"
  by (rule ext) (simp add: Canonicalize_def)

lemma ms_lit_ci:
  "ms True (lit p) s caps = (if ciPrefix p s then [(drop (length p) s, caps)] else [])"
  by (simp add: ms_lit ciPrefix_def Canonicalize_True)

lemma ms_lit_Eps:
  "ms True (Cat (lit p) Eps) s caps = (if ciPrefix p s then [(drop (length p) s, caps)] else [])"
  by (simp add: ms_lit_ci)

lemma ms_group_lazy_any:
  assumes any: "\<And>c. amatch ic a c"
  shows "ms ic (Grp n (Star False a)) s caps =
           map (\<lambda>k. (drop k s, caps(n \<mapsto> take k s))) [0..<Suc (length s)]"
proof -
  have "map (\<lambda>(s', caps'). (s', caps'(n \<mapsto> take (length s - length s') s)))
            (map (\<lambda>k. (drop k s, caps)) [0..<Suc (length s)])
        = map (\<lambda>k. (drop k s, caps(n \<mapsto> take k s))) [0..<Suc (length s)]"
    unfolding map_map by (rule map_cong) auto
  then show ?thesis
    by (simp only: ms.simps(6) ms_lazy_any [OF any])
qed

lemma ms_close:
  assumes any: "\<And>c. amatch True a c"
  shows "ms True (Cat (Grp 1 (Star False a)) (Cat (lit p) Eps)) s caps =
     concat (map (\<lambda>k. if ciPrefix p (drop k s)
                      then [(drop (length p + k) s, caps(1 \<mapsto> take k s))] else [])
                 [0..<Suc (length s)])"
proof -
  have "ms True (Cat (Grp 1 (Star False a)) (Cat (lit p) Eps)) s caps
        = concat (map (\<lambda>(s', caps'). ms True (Cat (lit p) Eps) s' caps')
                      (ms True (Grp 1 (Star False a)) s caps))"
    by (rule ms.simps(3))
  also have "\<dots> = concat (map (\<lambda>k. ms True (Cat (lit p) Eps) (drop k s) (caps(1 \<mapsto> take k s)))
                           [0..<Suc (length s)])"
    by (simp only: ms_group_lazy_any [OF any] map_map o_def prod.case)
  also have "\<dots> = concat (map (\<lambda>k. if ciPrefix p (drop k s)
                      then [(drop (length p + k) s, caps(1 \<mapsto> take k s))] else [])
                 [0..<Suc (length s)])"
    by (simp only: ms_lit_Eps drop_drop)
  finally show ?thesis .
qed

lemma ms_close_roundtrip:
  assumes any: "\<And>c. amatch True a c" and "\<not> occursCI p b"
    and border: "toUpperCase (hd p) \<notin> set (map toUpperCase (tl p))"
  shows "ms True (Cat (Grp 1 (Star False a)) (Cat (lit p) Eps)) (b @ p) caps = [([], caps(1 \<mapsto> b))]"
proof -
  let ?f = "\<lambda>k. if ciPrefix p (drop k (b @ p))
                      then [(drop (length p + k) (b @ p), caps(1 \<mapsto> take k (b @ p)))] else []"
  let ?n = "length b"
  have "[0..<Suc (length (b @ p))] = [0..<?n] @ [?n..<Suc (?n + length p)]"
    using upt_add_eq_append [of 0 ?n "Suc (length p)"] by simp
  also have "[?n..<Suc (?n + length p)] = ?n # [Suc ?n..<Suc (?n + length p)]"
    by (simp add: upt_conv_Cons del: upt_Suc)
  finally have split: "[0..<Suc (length (b @ p))] = [0..<?n] @ [?n] @ [Suc ?n..<Suc (?n + length p)]"
    by simp
  have before: "concat (map ?f [0..<?n]) = []"
    using no_straddle [OF assms(2) _ border] by (intro concat_map_Nil) auto
  have after: "concat (map ?f [Suc ?n..<Suc (?n + length p)]) = []"
  proof (intro concat_map_Nil)
    fix k assume "k \<in> set [Suc ?n..<Suc (?n + length p)]"
    then have "length (drop k (b @ p)) < length p" by auto
    then show "?f k = []" by (simp add: ciPrefix_def del: drop_append length_drop)
  qed
  have at: "?f ?n = [([], caps(1 \<mapsto> b))]"
    by (simp add: ciPrefix_def)
  have "concat (map ?f ([0..<?n] @ [?n] @ [Suc ?n..<Suc (?n + length p)]))
        = concat (map ?f [0..<?n]) @ ?f ?n @ concat (map ?f [Suc ?n..<Suc (?n + length p)])"
    by (simp only: map_append concat_append list.map concat.simps append_Nil2)
  then show ?thesis
    unfolding ms_close [OF any] split by (simp only: before after at append_Nil append_Nil2)
qed

lemma regexSearch_skip:
  "ms ic r (c # s) Map.empty = [] \<Longrightarrow> regexSearch ic r pre (c # s) = regexSearch ic r (pre @ [c]) s"
  by (subst regexSearch.simps) simp

lemma ms_enNote:
  "ms True enNoteRegex s caps =
     (if ciPrefix ''<en-note'' s
      then (case dropWhile (\<lambda>c. c \<noteq> CHR ''>'') (drop 8 s) of
              [] \<Rightarrow> []
            | c # body' \<Rightarrow> ms True (Cat (Grp 1 (Star False (Cls False [CSpace, CNotSpace])))
                                      (Cat (lit ''</en-note>'') Eps)) body' caps)
      else [])"
proof -
  have "ms True enNoteRegex s caps =
          concat (map (\<lambda>(s', caps'). ms True
                    (Cat (Star True (Cls True [CChar (CHR ''>'')]))
                      (Cat (Atom (Chr (CHR ''>'')))
                        (Cat (Grp 1 (Star False (Cls False [CSpace, CNotSpace])))
                          (Cat (lit ''</en-note>'') Eps)))) s' caps')
                 (ms True (lit ''<en-note'') s caps))"
    unfolding enNoteRegex_def cats.simps by (rule ms.simps(3))
  moreover have "length ''<en-note'' = 8" by simp
  ultimately show ?thesis
    by (simp only: ms_lit_ci ms_enNote_open if_distrib [of "\<lambda>l. concat (map _ l)"]
                   list.map concat.simps prod.case append_Nil2)
qed

lemma ciPrefix_Cons2:
  "ciPrefix (a # b # p) (c # d # s) \<Longrightarrow> toUpperCase c = toUpperCase a \<and> toUpperCase d = toUpperCase b"
  by (simp add: ciPrefix_def)

lemma ciPrefix_Cons1:
  "ciPrefix (a # p) (c # s) \<Longrightarrow> toUpperCase c = toUpperCase a"
  by (simp add: ciPrefix_def)

lemma upper_lt: "toUpperCase (CHR ''<'') = CHR ''<''" by (simp add: toUpperCase_def)
lemma upper_e: "toUpperCase (CHR ''e'') = CHR ''E''" by code_simp

lemma safePrefix_no_open:
  assumes "safePrefix (c # u)"
  shows "\<not> ciPrefix ''<en-note'' ((c # u) @ s)"
proof (cases u)
  case Nil
  with assms have "c \<noteq> CHR ''<''" by simp
  then show ?thesis using ciPrefix_Cons1 [of "CHR ''<''" "''en-note''" c "u @ s"]
    by (auto simp: upper_lt toUpperCase_lt)
next
  case (Cons d t)
  with assms have "c = CHR ''<'' \<longrightarrow> toUpperCase d \<noteq> CHR ''E''" by simp
  then show ?thesis
    using ciPrefix_Cons2 [of "CHR ''<''" "CHR ''e''" "''n-note''" c d "t @ s"] Cons
    by (auto simp: upper_lt upper_e toUpperCase_lt)
qed

lemma regexSearch_safePrefix:
  "safePrefix u \<Longrightarrow> regexSearch True enNoteRegex pre (u @ s) = regexSearch True enNoteRegex (pre @ u) s"
proof (induction u arbitrary: pre)
  case Nil
  then show ?case by simp
next
  case (Cons c u)
  have "ms True enNoteRegex ((c # u) @ s) Map.empty = []"
    using safePrefix_no_open [OF Cons.prems, of s] by (simp only: ms_enNote if_False)
  then have "regexSearch True enNoteRegex pre ((c # u) @ s) = regexSearch True enNoteRegex (pre @ [c]) (u @ s)"
    using regexSearch_skip [of True enNoteRegex c "u @ s" pre] by simp
  moreover have "safePrefix u" using Cons.prems by (cases u) auto
  ultimately show ?case using Cons.IH [of "pre @ [c]"] by simp
qed

lemma safePrefix_prolog: "safePrefix (xmlProlog @ enmlDocType)"
  by (simp add: xmlProlog_def enmlDocType_def toUpperCase_def)

lemma anyCls: "amatch True (Cls False [CSpace, CNotSpace]) c"
  by simp

lemma close_border: "toUpperCase (hd ''</en-note>'') \<notin> set (map toUpperCase (tl ''</en-note>''))"
  by code_simp

lemma ms_enNote_wrapped:
  assumes "\<not> occursCI ''</en-note>'' b"
  shows "ms True enNoteRegex (''<en-note>'' @ b @ ''</en-note>'') Map.empty = [([], [1 \<mapsto> b])]"
proof -
  have p: "ciPrefix ''<en-note'' (''<en-note>'' @ b @ ''</en-note>'')"
    by (simp add: ciPrefix_def)
  have d: "dropWhile (\<lambda>c. c \<noteq> CHR ''>'') (drop 8 (''<en-note>'' @ b @ ''</en-note>''))
           = CHR ''>'' # (b @ ''</en-note>'')"
    by simp
  show ?thesis
    by (simp only: ms_enNote p d if_True list.case ms_close_roundtrip [OF anyCls assms close_border])
qed

lemma extractEnmlBody_wrapEnmlBody:
  assumes "\<not> occursCI ''</en-note>'' b"
  shows "extractEnmlBody (wrapEnmlBody b) = b"
proof -
  have "regexSearch True enNoteRegex [] (wrapEnmlBody b)
        = regexSearch True enNoteRegex (xmlProlog @ enmlDocType) (''<en-note>'' @ b @ ''</en-note>'')"
    using regexSearch_safePrefix [OF safePrefix_prolog, of "[]" "''<en-note>'' @ b @ ''</en-note>''"]
    by (simp add: wrapEnmlBody_def)
  also have "\<dots> = Some (xmlProlog @ enmlDocType, ''<en-note>'' @ b @ ''</en-note>'', [], [1 \<mapsto> b])"
    by (subst regexSearch.simps) (simp only: ms_enNote_wrapped [OF assms] list.case prod.case, simp)
  finally show ?thesis by (simp add: extractEnmlBody_def)
qed

text \<open>
  Claim C2. For every body in which \<open></en-note>\<close> does not occur (in any letter case),
  unwrapping the wrapped body gives the body back. An opening \<open><en-note ...>\<close> inside
  the body does no harm, so the hypothesis asks less than the claim does.
\<close>

theorem extractEnmlBody_wrapEnmlBody_roundtrip:
  "\<not> occursCI ''</en-note>'' b \<Longrightarrow> extractEnmlBody (wrapEnmlBody b) = b"
  by (rule extractEnmlBody_wrapEnmlBody)

theorem extractEnmlBody_wrapEnmlBody_roundtrip_witness:
  "\<not> occursCI ''</en-note>'' ''<div>Hello <b>note</b></div>''
   \<and> extractEnmlBody (wrapEnmlBody ''<div>Hello <b>note</b></div>'') = ''<div>Hello <b>note</b></div>''"
proof -
  have h: "\<not> occursCI ''</en-note>'' ''<div>Hello <b>note</b></div>''"
    by (simp add: ciPrefix_def toUpperCase_def)
  from extractEnmlBody_wrapEnmlBody_roundtrip [OF h] h show ?thesis by simp
qed

section \<open>Plain text to ENML\<close>

lemma GetSubstitution_plain:
  "CHR ''$'' \<notin> set tpl \<Longrightarrow> GetSubstitution m pre post n caps tpl = tpl"
  by (induction m pre post n caps tpl rule: GetSubstitution.induct) auto

lemma regexReplaceAll_Atom:
  assumes "\<And>c pre post. GetSubstitution [c] pre post 0 Map.empty tpl = f c"
  shows "regexReplaceAll ic (Atom a) tpl pre s = concat (map (\<lambda>c. if amatch ic a c then f c else [c]) s)"
proof (induction s arbitrary: pre)
  case Nil
  show ?case by (subst regexReplaceAll.simps) simp
next
  case (Cons c t)
  show ?case
    by (subst regexReplaceAll.simps) (simp add: assms Cons.IH)
qed

lemma regexReplaceAll_Atom_plain:
  "CHR ''$'' \<notin> set tpl \<Longrightarrow>
   regexReplaceAll ic (Atom a) tpl pre s = concat (map (\<lambda>c. if amatch ic a c then tpl else [c]) s)"
  by (rule regexReplaceAll_Atom) (simp add: GetSubstitution_plain)

lemma concat_map_concat_map:
  "concat (map f (concat (map g xs))) = concat (map (\<lambda>x. concat (map f (g x))) xs)"
  by (induction xs) auto

lemma escapeXml_chars: "escapeXml v = concat (map escapeXmlChar v)"
proof -
  have "concat (map (\<lambda>c. if c = CHR 0x22 then ''&quot;'' else [c])
          (concat (map (\<lambda>c. if c = CHR ''>'' then ''&gt;'' else [c])
            (concat (map (\<lambda>c. if c = CHR ''<'' then ''&lt;'' else [c])
              (concat (map (\<lambda>c. if c = CHR ''&'' then ''&amp;'' else [c]) v)))))))
        = concat (map escapeXmlChar v)"
    unfolding concat_map_concat_map
    by (rule arg_cong [where f = concat], rule map_cong) (auto simp: escapeXmlChar_def)
  then show ?thesis
    by (simp add: escapeXml_def regexReplaceAll_Atom_plain Canonicalize_def eq_commute)
qed


lemma ms_lineBreak:
  "ms False lineBreakRegex s caps =
     (case s of
        [] \<Rightarrow> []
      | c # t \<Rightarrow>
          if c = CHR 0x0A then [(t, caps)]
          else if c = CHR 0x0D then (case t of [] \<Rightarrow> [] | d # u \<Rightarrow> if d = CHR 0x0A then [(u, caps)] else [])
          else [])"
  by (auto simp: lineBreakRegex_def Canonicalize_def split: list.splits)

lemma ngroups_lineBreak: "ngroups lineBreakRegex = 0"
  by (simp add: lineBreakRegex_def)

lemma replace_lineBreaks:
  "regexReplaceAll False lineBreakRegex ''<br />'' pre s = convertLineBreaks s"
proof (induction s arbitrary: pre rule: convertLineBreaks.induct)
  case 1
  show ?case by (subst regexReplaceAll.simps) (simp add: ms_lineBreak)
next
  case (2 c)
  have e: "regexReplaceAll False lineBreakRegex ''<br />'' p [] = []" for p
    by (subst regexReplaceAll.simps) (simp add: ms_lineBreak)
  show ?case
    by (subst regexReplaceAll.simps) (simp add: ms_lineBreak e GetSubstitution_plain)
next
  case (3 c d t)
  show ?case
    by (subst regexReplaceAll.simps)
       (simp add: ms_lineBreak GetSubstitution_plain "3.IH")
qed

lemma convertLineBreaks_Cons:
  "c \<noteq> CHR 0x0A \<Longrightarrow> c \<noteq> CHR 0x0D \<Longrightarrow> convertLineBreaks (c # rest) = c # convertLineBreaks rest"
  by (cases rest) auto

lemma convertLineBreaks_CR:
  "rest = [] \<or> hd rest \<noteq> CHR 0x0A \<Longrightarrow> convertLineBreaks (CHR 0x0D # rest) = CHR 0x0D # convertLineBreaks rest"
  by (cases rest) auto

lemma convertLineBreaks_escaped:
  "c \<noteq> CHR 0x0A \<Longrightarrow> c \<noteq> CHR 0x0D \<Longrightarrow>
   convertLineBreaks (escapeXmlChar c @ rest) = escapeXmlChar c @ convertLineBreaks rest"
  by (simp add: escapeXmlChar_def convertLineBreaks_Cons)

lemma hd_escaped: "hd (escapeXmlChar d @ rest) = CHR 0x0A \<longleftrightarrow> d = CHR 0x0A"
  by (auto simp: escapeXmlChar_def)

lemma convertLineBreaks_escapeXml:
  "convertLineBreaks (concat (map escapeXmlChar v)) = concat (plainTokens v)"
proof (induction v rule: plainTokens.induct)
  case 1
  show ?case by simp
next
  case (2 c)
  show ?case
  proof (cases "c = CHR 0x0A \<or> c = CHR 0x0D")
    case True
    then show ?thesis by (auto simp: escapeXmlChar_def)
  next
    case False
    then show ?thesis using convertLineBreaks_escaped [of c "[]"] by simp
  qed
next
  case (3 c d t)
  consider "c = CHR 0x0A" | "c = CHR 0x0D" "d = CHR 0x0A" | "c = CHR 0x0D" "d \<noteq> CHR 0x0A"
    | "c \<noteq> CHR 0x0A" "c \<noteq> CHR 0x0D" by blast
  then show ?case
  proof cases
    case 1
    then have "concat (map escapeXmlChar (c # d # t)) = CHR 0x0A # concat (map escapeXmlChar (d # t))"
      by (simp add: escapeXmlChar_def)
    moreover have "convertLineBreaks (CHR 0x0A # rest) = ''<br />'' @ convertLineBreaks rest" for rest
      by (cases rest) auto
    ultimately show ?thesis using 1 "3.IH"(1) by simp
  next
    case 2
    then have "concat (map escapeXmlChar (c # d # t)) = CHR 0x0D # CHR 0x0A # concat (map escapeXmlChar t)"
      by (simp add: escapeXmlChar_def)
    then show ?thesis using 2 "3.IH"(2) by (simp add: escapeXmlChar_def)
  next
    case 3
    have escCR: "escapeXmlChar c = [CHR 0x0D]" using 3 by (simp add: escapeXmlChar_def)
    have ih: "convertLineBreaks (concat (map escapeXmlChar (d # t))) = concat (plainTokens (d # t))"
      using 3 "3.IH"(3) by simp
    have "concat (map escapeXmlChar (c # d # t)) = CHR 0x0D # concat (map escapeXmlChar (d # t))"
      using escCR by simp
    moreover have "convertLineBreaks (CHR 0x0D # concat (map escapeXmlChar (d # t)))
        = CHR 0x0D # convertLineBreaks (concat (map escapeXmlChar (d # t)))"
      using 3 hd_escaped [of d "concat (map escapeXmlChar t)"] by (intro convertLineBreaks_CR) simp
    moreover have "plainTokens (c # d # t) = [CHR 0x0D] # plainTokens (d # t)"
      using 3 escCR by simp
    ultimately show ?thesis using ih by (simp only: concat.simps append_Cons append_Nil)
  next
    case 4
    then show ?thesis
      using convertLineBreaks_escaped [of c "concat (map escapeXmlChar (d # t))"] "3.IH"(3) by simp
  qed
qed

lemma plainTextToEnml_tokens:
  "plainTextToEnml v = wrapEnmlBody (''<div>'' @ concat (plainTokens v) @ ''</div>'')"
  by (simp add: plainTextToEnml_def escapeXml_chars replace_lineBreaks convertLineBreaks_escapeXml)

lemma plainTokens_plainToken: "list_all plainToken (plainTokens v)"
  by (induction v rule: plainTokens.induct) (auto simp: plainToken_def escapeXmlChar_def)

lemma plainTokens_example:
  "concat (plainTokens (''<a & b>'' @ [CHR 0x0A] @ ''line2'')) = ''&lt;a &amp; b&gt;<br />line2''"
  by (simp add: escapeXmlChar_def)

text \<open>
  Claim C8, as amended. For every text, \<open>plainTextToEnml\<close> yields the document shell
  around one \<open>div\<close> that holds the text with each of the four characters \<open>& < > "\<close>
  escaped and each line break (\<open>\n\<close> or \<open>\r\n\<close>) turned into one \<open><br />\<close>, every
  other character (the apostrophe among them) unchanged; so every piece of the body is an
  entity, a break element or a single character other than \<open>& < > "\<close>. For the text
  \<open><a & b>\<close>, newline, \<open>line2\<close> the body is \<open><div>&lt;a &amp; b&gt;<br />line2</div>\<close>.
\<close>

theorem plainTextToEnml_encoding:
  "plainTextToEnml v =
     xmlProlog @ enmlDocType @ ''<en-note>'' @ ''<div>'' @ concat (plainTokens v) @ ''</div>'' @ ''</en-note>''
   \<and> list_all plainToken (plainTokens v)
   \<and> plainTextToEnml (''<a & b>'' @ [CHR 0x0A] @ ''line2'') =
       xmlProlog @ enmlDocType @ ''<en-note><div>&lt;a &amp; b&gt;<br />line2</div></en-note>''"
  using plainTokens_example
  by (simp only: plainTextToEnml_tokens plainTokens_plainToken wrapEnmlBody_def) simp

text \<open>
  The claim as stated counts five escaped metacharacters; the apostrophe, the fifth
  character with a predefined XML entity, is not escaped.
\<close>

theorem plainTextToEnml_apostrophe_counterexample:
  "plainTextToEnml [CHR 0x27] = xmlProlog @ enmlDocType @ ''<en-note><div>'' @ [CHR 0x27] @ ''</div></en-note>''"
  by (simp add: plainTextToEnml_tokens wrapEnmlBody_def escapeXmlChar_def)

section \<open>The update and create branches\<close>

lemma update_Inr_D:
  assumes "update env p = Some (calls, Inr nd)"
  shows "\<exists>att ex c0 tcalls tags attrs.
           buildAttachments env p = Inr att
         \<and> env_getNote env (noteGuid p) (fetchWithContent p) = Inr ex
         \<and> editContent env p ex = Some (Inr c0)
         \<and> reconcileTags env p = (tcalls, Inr tags)
         \<and> mergeAttributes (env_JSON_parse env) (attributesJson p) (noteAttributesUi p) = Inr attrs
         \<and> nd = updateNoteData p att ex c0 tags attrs
         \<and> calls = GetNote (noteGuid p) (fetchWithContent p) # tcalls @ [UpdateNote nd]"
  using assms unfolding update_def Let_def
  by (auto split: sum.splits option.splits prod.splits)

lemma update_Inr_I:
  assumes "buildAttachments env p = Inr att"
    and "env_getNote env (noteGuid p) (fetchWithContent p) = Inr ex"
    and "editContent env p ex = Some (Inr c0)"
    and "reconcileTags env p = (tcalls, Inr tags)"
    and "mergeAttributes (env_JSON_parse env) (attributesJson p) (noteAttributesUi p) = Inr attrs"
  shows "update env p =
           Some (GetNote (noteGuid p) (fetchWithContent p) # tcalls
                   @ [UpdateNote (updateNoteData p att ex c0 tags attrs)],
                 Inr (updateNoteData p att ex c0 tags attrs))"
  using assms unfolding update_def Let_def by simp

lemma reconcileTags_calls: "reconcileTags env p = (tcalls, r) \<Longrightarrow> UpdateNote nd \<notin> set tcalls"
  unfolding reconcileTags_def Let_def by (auto split: sum.splits if_splits)

lemma update_Inl_D:
  assumes "update env p = Some (calls, Inl e)"
  shows "UpdateNote nd \<notin> set calls"
  using assms reconcileTags_calls [of env p] unfolding update_def Let_def
  by (auto split: sum.splits option.splits prod.splits)

lemma demo_fetch [simp]:
  "env_getNote demoEnv ''n1'' wc =
     Inr \<lparr>existing_title = Some ''Prices'',
          existing_content = (if wc then Some (wrapEnmlBody ''price: $5.00'') else None)\<rparr>"
  by (simp add: demoEnv_def)

lemma demo_noAttachments: "\<not> addAttachments p \<Longrightarrow> buildAttachments env p = Inr None"
  by (simp add: buildAttachments_def)

lemma mergeAttributes_none: "mergeAttributes J [] [] = Inr None"
  by (simp add: mergeAttributes_def emptyObject_def)

lemma title_sent:
  assumes "update env p = Some (calls, Inr nd)"
  shows "\<exists>ex. env_getNote env (noteGuid p) (fetchWithContent p) = Inr ex
            \<and> title nd = (if titleUpdate p \<noteq> [] then Some (titleUpdate p) else existing_title ex)"
  using update_Inr_D [OF assms] by (auto simp: updateNoteData_def)


lemma demo_update:
  "update demoEnv demoParams =
     Some ([GetNote ''n1'' True,
            UpdateNote (updateNoteData demoParams None demoExisting (plainTextToEnml ''hello'') [''b'', ''c''] None)],
           Inr (updateNoteData demoParams None demoExisting (plainTextToEnml ''hello'') [''b'', ''c''] None))"
proof -
  have f: "fetchWithContent demoParams = True" "noteGuid demoParams = ''n1''"
    by (simp_all add: fetchWithContent_def demoParams_def)
  have 1: "buildAttachments demoEnv demoParams = Inr None"
    by (simp add: buildAttachments_def demoParams_def)
  have 2: "env_getNote demoEnv (noteGuid demoParams) (fetchWithContent demoParams) = Inr demoExisting"
    by (simp add: f demoExisting_def)
  have 3: "editContent demoEnv demoParams demoExisting = Some (Inr (plainTextToEnml ''hello''))"
    by (simp add: editContent_def encodeContent_def demoParams_def)
  have 4: "reconcileTags demoEnv demoParams = ([], Inr [''b'', ''c''])"
    by (simp add: reconcileTags_def demoParams_def splitTags_def trim_def isWhiteSpace_def)
  have 5: "mergeAttributes (env_JSON_parse demoEnv) (attributesJson demoParams) (noteAttributesUi demoParams) = Inr None"
    by (simp add: mergeAttributes_def emptyObject_def demoParams_def)
  show ?thesis using update_Inr_I [OF 1 2 3 4 5] by (simp add: f)
qed





lemma wrapEnmlBody_nonempty: "wrapEnmlBody b \<noteq> []"
  by (simp add: wrapEnmlBody_def xmlProlog_def)

lemma demo_names: "parseBinaryPropertyNames (Some ''data, scan'') = [''data'', ''scan'']"
  by (simp add: parseBinaryPropertyNames_def trim_def isWhiteSpace_def)

lemma demo_attachments:
  "addAttachments p \<Longrightarrow> binaryPropertyNamesRaw p = ''data, scan'' \<Longrightarrow>
   buildAttachments demoEnv p = Inr (Some demoBuilt)"
  by (simp add: buildAttachments_def demo_names demo_build demoEnv_def)

lemma demo_body: "extractEnmlBody (wrapEnmlBody ''price: $5.00'') = ''price: $5.00''"
  by (rule extractEnmlBody_wrapEnmlBody) (simp add: ciPrefix_def toUpperCase_def)

lemma demo_hello_body: "extractEnmlBody (plainTextToEnml ''hello'') = ''<div>hello</div>''"
proof -
  have "plainTextToEnml ''hello'' = wrapEnmlBody ''<div>hello</div>''"
    by (simp add: plainTextToEnml_tokens escapeXmlChar_def)
  moreover have "extractEnmlBody (wrapEnmlBody ''<div>hello</div>'') = ''<div>hello</div>''"
    by (rule extractEnmlBody_wrapEnmlBody) (simp add: ciPrefix_def toUpperCase_def)
  ultimately show ?thesis by simp
qed

lemma demo_keep_update:
  "update demoEnv demoKeepParams =
     Some ([GetNote ''n1'' True,
            UpdateNote (updateNoteData demoKeepParams (Some demoBuilt) demoExisting
                          (wrapEnmlBody ''price: $5.00'') [''b'', ''c''] None)],
           Inr (updateNoteData demoKeepParams (Some demoBuilt) demoExisting
                  (wrapEnmlBody ''price: $5.00'') [''b'', ''c''] None))"
proof -
  have f: "fetchWithContent demoKeepParams = True" "noteGuid demoKeepParams = ''n1''"
    by (simp_all add: fetchWithContent_def demoKeepParams_def demoParams_def)
  have 1: "buildAttachments demoEnv demoKeepParams = Inr (Some demoBuilt)"
    by (rule demo_attachments) (simp_all add: demoKeepParams_def)
  have 2: "env_getNote demoEnv (noteGuid demoKeepParams) (fetchWithContent demoKeepParams) = Inr demoExisting"
    by (simp add: f demoExisting_def)
  have 3: "editContent demoEnv demoKeepParams demoExisting = Some (Inr (wrapEnmlBody ''price: $5.00''))"
    by (simp add: editContent_def demoKeepParams_def demoExisting_def orElse_def wrapEnmlBody_nonempty)
  have 4: "reconcileTags demoEnv demoKeepParams = ([], Inr [''b'', ''c''])"
    by (simp add: reconcileTags_def demoKeepParams_def demoParams_def splitTags_def trim_def isWhiteSpace_def)
  have 5: "mergeAttributes (env_JSON_parse demoEnv) (attributesJson demoKeepParams) (noteAttributesUi demoKeepParams) = Inr None"
    by (simp add: mergeAttributes_def emptyObject_def demoKeepParams_def demoParams_def)
  show ?thesis using update_Inr_I [OF 1 2 3 4 5] by (simp add: f)
qed

lemma buildAttachments_tags:
  assumes "buildAttachments env p = Inr att"
  shows "(addAttachments p \<longrightarrow>
            (\<exists>r. buildResourcesFromBinary (env_md5 env) (env_executor env) (env_itemIndex env)
                    (parseBinaryPropertyNames (Some (binaryPropertyNamesRaw p))) = Inr r
                 \<and> att = Some r \<and> attachmentTags att = mediaTags r))
       \<and> (\<not> addAttachments p \<longrightarrow> att = None \<and> attachmentTags att = [])"
  using assms by (auto simp: buildAttachments_def attachmentTags_def split: sum.splits if_splits)

text \<open>
  Claim C5. Whenever the update branch reaches \<open>updateNote\<close>: if media tags were built,
  the content sent is the shell around the body of the content produced by the editing
  mode (whatever the mode, \<open>keep\<close> included) followed by the media tags in build order;
  if none were built, the content sent is exactly the content produced by the editing
  mode. When that content is the wrapping of a body without \<open></en-note>\<close>, the content
  sent is the wrapping of that very body followed by the tags.
\<close>

theorem media_tags_appended:
  assumes "update env p = Some (calls, Inr nd)"
  shows "\<exists>att ex c0.
           buildAttachments env p = Inr att
         \<and> env_getNote env (noteGuid p) (fetchWithContent p) = Inr ex
         \<and> editContent env p ex = Some (Inr c0)
         \<and> (addAttachments p \<longrightarrow>
              (\<exists>r. buildResourcesFromBinary (env_md5 env) (env_executor env) (env_itemIndex env)
                      (parseBinaryPropertyNames (Some (binaryPropertyNamesRaw p))) = Inr r
                   \<and> attachmentTags att = mediaTags r))
         \<and> (\<not> addAttachments p \<longrightarrow> attachmentTags att = [])
         \<and> (attachmentTags att \<noteq> [] \<longrightarrow>
              content nd = wrapEnmlBody (extractEnmlBody c0 @ concat (attachmentTags att)))
         \<and> (attachmentTags att = [] \<longrightarrow> content nd = c0)
         \<and> (contentEditingMode p = ''keep'' \<longrightarrow> c0 = orElse (existing_content ex) (wrapEnmlBody []))
         \<and> (\<forall>b0. attachmentTags att \<noteq> [] \<and> c0 = wrapEnmlBody b0 \<and> \<not> occursCI ''</en-note>'' b0 \<longrightarrow>
                  content nd = wrapEnmlBody (b0 @ concat (attachmentTags att)))"
proof -
  from update_Inr_D [OF assms] obtain att ex c0 tcalls tags attrs where
    s: "buildAttachments env p = Inr att"
       "env_getNote env (noteGuid p) (fetchWithContent p) = Inr ex"
       "editContent env p ex = Some (Inr c0)"
       "nd = updateNoteData p att ex c0 tags attrs"
    by blast
  have c: "content nd = withMedia c0 (attachmentTags att)"
    using s(4) by (simp add: updateNoteData_def)
  have k: "contentEditingMode p = ''keep'' \<longrightarrow> c0 = orElse (existing_content ex) (wrapEnmlBody [])"
    using s(3) by (auto simp: editContent_def)
  have r: "\<forall>b0. attachmentTags att \<noteq> [] \<and> c0 = wrapEnmlBody b0 \<and> \<not> occursCI ''</en-note>'' b0 \<longrightarrow>
                  content nd = wrapEnmlBody (b0 @ concat (attachmentTags att))"
    using c by (auto simp: withMedia_def extractEnmlBody_wrapEnmlBody)
  show ?thesis
    using s(1,2,3) buildAttachments_tags [OF s(1)] c k r
    by (intro exI [of _ att] exI [of _ ex] exI [of _ c0]) (auto simp: withMedia_def)
qed

theorem media_tags_appended_witness:
  "update demoEnv demoKeepParams =
     Some ([GetNote ''n1'' True,
            UpdateNote (updateNoteData demoKeepParams (Some demoBuilt) demoExisting
                          (wrapEnmlBody ''price: $5.00'') [''b'', ''c''] None)],
           Inr (updateNoteData demoKeepParams (Some demoBuilt) demoExisting
                  (wrapEnmlBody ''price: $5.00'') [''b'', ''c''] None))
   \<and> content (updateNoteData demoKeepParams (Some demoBuilt) demoExisting
                (wrapEnmlBody ''price: $5.00'') [''b'', ''c''] None)
       = wrapEnmlBody (''price: $5.00'' @ concat (mediaTags demoBuilt))
   \<and> update demoEnv demoParams =
     Some ([GetNote ''n1'' True,
            UpdateNote (updateNoteData demoParams None demoExisting (plainTextToEnml ''hello'') [''b'', ''c''] None)],
           Inr (updateNoteData demoParams None demoExisting (plainTextToEnml ''hello'') [''b'', ''c''] None))
   \<and> content (updateNoteData demoParams None demoExisting (plainTextToEnml ''hello'') [''b'', ''c''] None)
       = plainTextToEnml ''hello''"
proof -
  let ?nd = "updateNoteData demoKeepParams (Some demoBuilt) demoExisting
                (wrapEnmlBody ''price: $5.00'') [''b'', ''c''] None"
  let ?nd2 = "updateNoteData demoParams None demoExisting (plainTextToEnml ''hello'') [''b'', ''c''] None"
  from media_tags_appended [OF demo_keep_update] obtain att ex c0 where
    a: "buildAttachments demoEnv demoKeepParams = Inr att"
       "editContent demoEnv demoKeepParams ex = Some (Inr c0)"
       "env_getNote demoEnv (noteGuid demoKeepParams) (fetchWithContent demoKeepParams) = Inr ex"
       "attachmentTags att \<noteq> [] \<longrightarrow> content ?nd = wrapEnmlBody (extractEnmlBody c0 @ concat (attachmentTags att))"
    by blast
  have att: "att = Some demoBuilt"
    using a(1) demo_attachments [of demoKeepParams] by (simp add: demoKeepParams_def)
  have ex: "ex = demoExisting"
    using a(3) by (simp add: fetchWithContent_def demoKeepParams_def demoParams_def demoExisting_def)
  have c0: "c0 = wrapEnmlBody ''price: $5.00''"
    using a(2) ex
    by (simp add: editContent_def demoKeepParams_def demoExisting_def orElse_def wrapEnmlBody_nonempty)
  have 1: "content ?nd = wrapEnmlBody (''price: $5.00'' @ concat (mediaTags demoBuilt))"
    using a(4) att c0 by (simp add: attachmentTags_def demo_body demoBuilt_def)
  from media_tags_appended [OF demo_update] obtain att' ex' c0' where
    b: "buildAttachments demoEnv demoParams = Inr att'"
       "editContent demoEnv demoParams ex' = Some (Inr c0')"
       "attachmentTags att' = [] \<longrightarrow> content ?nd2 = c0'"
    by blast
  have "att' = None" using b(1) by (simp add: buildAttachments_def demoParams_def)
  moreover have "c0' = plainTextToEnml ''hello''"
    using b(2) by (simp add: editContent_def encodeContent_def demoParams_def)
  ultimately have 2: "content ?nd2 = plainTextToEnml ''hello''"
    using b(3) by (simp add: attachmentTags_def)
  show ?thesis using demo_keep_update demo_update 1 2 by simp
qed

lemma demo_replace_update:
  "update demoEnv demoReplaceParams =
     Some ([GetNote ''n1'' True,
            UpdateNote (updateNoteData demoReplaceParams (Some demoBuilt) demoExisting
                          (plainTextToEnml ''hello'') [''b'', ''c''] None)],
           Inr (updateNoteData demoReplaceParams (Some demoBuilt) demoExisting
                  (plainTextToEnml ''hello'') [''b'', ''c''] None))"
proof -
  have f: "fetchWithContent demoReplaceParams = True" "noteGuid demoReplaceParams = ''n1''"
    by (simp_all add: fetchWithContent_def demoReplaceParams_def demoParams_def)
  have 1: "buildAttachments demoEnv demoReplaceParams = Inr (Some demoBuilt)"
    by (rule demo_attachments) (simp_all add: demoReplaceParams_def)
  have 2: "env_getNote demoEnv (noteGuid demoReplaceParams) (fetchWithContent demoReplaceParams) = Inr demoExisting"
    by (simp add: f demoExisting_def)
  have 3: "editContent demoEnv demoReplaceParams demoExisting = Some (Inr (plainTextToEnml ''hello''))"
    by (simp add: editContent_def encodeContent_def demoReplaceParams_def demoParams_def)
  have 4: "reconcileTags demoEnv demoReplaceParams = ([], Inr [''b'', ''c''])"
    by (simp add: reconcileTags_def demoReplaceParams_def demoParams_def splitTags_def trim_def isWhiteSpace_def)
  have 5: "mergeAttributes (env_JSON_parse demoEnv) (attributesJson demoReplaceParams) (noteAttributesUi demoReplaceParams) = Inr None"
    by (simp add: mergeAttributes_def emptyObject_def demoReplaceParams_def demoParams_def)
  show ?thesis using update_Inr_I [OF 1 2 3 4 5] by (simp add: f)
qed

lemma demo_other_update:
  "update demoOtherEnv demoParams =
     Some ([GetNote ''n1'' True,
            UpdateNote (updateNoteData demoParams None
                          \<lparr>existing_title = Some ''Other'', existing_content = Some ''<en-note>other</en-note>''\<rparr>
                          (plainTextToEnml ''hello'') [''b'', ''c''] None)],
           Inr (updateNoteData demoParams None
                  \<lparr>existing_title = Some ''Other'', existing_content = Some ''<en-note>other</en-note>''\<rparr>
                  (plainTextToEnml ''hello'') [''b'', ''c''] None))"
proof -
  let ?ex = "\<lparr>existing_title = Some ''Other'', existing_content = Some ''<en-note>other</en-note>''\<rparr>"
  have f: "fetchWithContent demoParams = True" "noteGuid demoParams = ''n1''"
    by (simp_all add: fetchWithContent_def demoParams_def)
  have 1: "buildAttachments demoOtherEnv demoParams = Inr None"
    by (simp add: buildAttachments_def demoParams_def)
  have 2: "env_getNote demoOtherEnv (noteGuid demoParams) (fetchWithContent demoParams) = Inr ?ex"
    by (simp add: demoOtherEnv_def)
  have 3: "editContent demoOtherEnv demoParams ?ex = Some (Inr (plainTextToEnml ''hello''))"
    by (simp add: editContent_def encodeContent_def demoParams_def)
  have 4: "reconcileTags demoOtherEnv demoParams = ([], Inr [''b'', ''c''])"
    by (simp add: reconcileTags_def demoParams_def splitTags_def trim_def isWhiteSpace_def)
  have 5: "mergeAttributes (env_JSON_parse demoOtherEnv) (attributesJson demoParams) (noteAttributesUi demoParams) = Inr None"
    by (simp add: mergeAttributes_def emptyObject_def demoParams_def)
  show ?thesis using update_Inr_I [OF 1 2 3 4 5] by (simp add: f)
qed

text \<open>
  Claim C9 as stated fails when attachments are built: in \<open>replace\<close> mode with two
  attachments the content sent is not the newly encoded input, since the media tags
  follow its body.
\<close>

theorem replace_with_attachments_counterexample:
  "update demoEnv demoReplaceParams =
     Some ([GetNote ''n1'' True,
            UpdateNote (updateNoteData demoReplaceParams (Some demoBuilt) demoExisting
                          (plainTextToEnml ''hello'') [''b'', ''c''] None)],
           Inr (updateNoteData demoReplaceParams (Some demoBuilt) demoExisting
                  (plainTextToEnml ''hello'') [''b'', ''c''] None))
   \<and> contentEditingMode demoReplaceParams = ''replace''
   \<and> content (updateNoteData demoReplaceParams (Some demoBuilt) demoExisting
                (plainTextToEnml ''hello'') [''b'', ''c''] None)
       = wrapEnmlBody (''<div>hello</div>'' @ concat (mediaTags demoBuilt))
   \<and> content (updateNoteData demoReplaceParams (Some demoBuilt) demoExisting
                (plainTextToEnml ''hello'') [''b'', ''c''] None)
       \<noteq> plainTextToEnml ''hello''"
proof -
  have c: "content (updateNoteData demoReplaceParams (Some demoBuilt) demoExisting
                (plainTextToEnml ''hello'') [''b'', ''c''] None)
       = wrapEnmlBody (''<div>hello</div>'' @ concat (mediaTags demoBuilt))"
    by (simp add: updateNoteData_def withMedia_def attachmentTags_def demo_hello_body demoBuilt_def)
  have p: "plainTextToEnml ''hello'' = wrapEnmlBody ''<div>hello</div>''"
    by (simp add: plainTextToEnml_tokens escapeXmlChar_def)
  have "wrapEnmlBody (''<div>hello</div>'' @ concat (mediaTags demoBuilt)) \<noteq> wrapEnmlBody ''<div>hello</div>''"
    by (simp add: wrapEnmlBody_def demoBuilt_def)
  with c p demo_replace_update show ?thesis
    by (simp add: demoReplaceParams_def demoParams_def)
qed

text \<open>
  Claim C9, as amended. In \<open>replace\<close> mode the content sent is the newly encoded input
  (the plain-text or the sanitized-HTML encoding) when no media tags were built, and the
  shell around the body of the newly encoded input followed by the media tags otherwise;
  it is the same whatever note the store returns for the fetch.
\<close>

theorem replace_mode_content:
  assumes "contentEditingMode p = ''replace''" and "update env p = Some (calls, Inr nd)"
  shows "\<exists>att. buildAttachments env p = Inr att
           \<and> content nd =
               (if attachmentTags att = [] then encodeContent env p
                else wrapEnmlBody (extractEnmlBody (encodeContent env p) @ concat (attachmentTags att)))
           \<and> encodeContent env p =
               (if contentMode p = ''html'' then wrapEnmlBody (env_sanitizeHtml env (htmlContent p))
                else plainTextToEnml (plainContent p))
           \<and> (\<forall>getNote' calls' nd'.
                 update (env\<lparr>env_getNote := getNote'\<rparr>) p = Some (calls', Inr nd') \<longrightarrow>
                 content nd' = content nd)"
proof -
  have content_of: "content n = withMedia (encodeContent e p) (attachmentTags a)"
    if "update e p = Some (cs, Inr n)" "buildAttachments e p = Inr a" for e cs n a
  proof -
    from update_Inr_D [OF that(1)] obtain att ex c0 tags attrs where
      s: "buildAttachments e p = Inr att" "editContent e p ex = Some (Inr c0)"
         "n = updateNoteData p att ex c0 tags attrs"
      by blast
    from s(2) assms(1) have "c0 = encodeContent e p" by (simp add: editContent_def)
    with s that(2) show ?thesis by (simp add: updateNoteData_def)
  qed
  from update_Inr_D [OF assms(2)] obtain att where att: "buildAttachments env p = Inr att"
    by blast
  have same: "buildAttachments (env\<lparr>env_getNote := g\<rparr>) p = Inr att"
             "encodeContent (env\<lparr>env_getNote := g\<rparr>) p = encodeContent env p" for g
    using att by (auto simp: buildAttachments_def encodeContent_def split: if_splits)
  have "content nd = withMedia (encodeContent env p) (attachmentTags att)"
    by (rule content_of [OF assms(2) att])
  moreover have "content nd' = withMedia (encodeContent env p) (attachmentTags att)"
    if "update (env\<lparr>env_getNote := g\<rparr>) p = Some (cs, Inr nd')" for g cs nd'
    using content_of [OF that same(1)] by (simp add: same(2))
  ultimately show ?thesis
    using att
    by (intro exI [of _ att]) (auto simp: withMedia_def encodeContent_def sanitizeHtmlToEnml_def)
qed

theorem replace_mode_content_witness:
  "contentEditingMode demoParams = ''replace''
   \<and> update demoEnv demoParams =
       Some ([GetNote ''n1'' True,
              UpdateNote (updateNoteData demoParams None demoExisting (plainTextToEnml ''hello'') [''b'', ''c''] None)],
             Inr (updateNoteData demoParams None demoExisting (plainTextToEnml ''hello'') [''b'', ''c''] None))
   \<and> update (demoEnv\<lparr>env_getNote := env_getNote demoOtherEnv\<rparr>) demoParams =
       Some ([GetNote ''n1'' True,
            UpdateNote (updateNoteData demoParams None
                          \<lparr>existing_title = Some ''Other'', existing_content = Some ''<en-note>other</en-note>''\<rparr>
                          (plainTextToEnml ''hello'') [''b'', ''c''] None)],
           Inr (updateNoteData demoParams None
                  \<lparr>existing_title = Some ''Other'', existing_content = Some ''<en-note>other</en-note>''\<rparr>
                  (plainTextToEnml ''hello'') [''b'', ''c''] None))
   \<and> content (updateNoteData demoParams None
                  \<lparr>existing_title = Some ''Other'', existing_content = Some ''<en-note>other</en-note>''\<rparr>
                  (plainTextToEnml ''hello'') [''b'', ''c''] None)
       = content (updateNoteData demoParams None demoExisting (plainTextToEnml ''hello'') [''b'', ''c''] None)
   \<and> content (updateNoteData demoParams None demoExisting (plainTextToEnml ''hello'') [''b'', ''c''] None)
       = plainTextToEnml ''hello''"
proof -
  have m: "contentEditingMode demoParams = ''replace''" by (simp add: demoParams_def)
  have e: "demoEnv\<lparr>env_getNote := env_getNote demoOtherEnv\<rparr> = demoOtherEnv"
    by (simp add: demoOtherEnv_def)
  from replace_mode_content [OF m demo_update] obtain att where
    a: "buildAttachments demoEnv demoParams = Inr att"
       "content (updateNoteData demoParams None demoExisting (plainTextToEnml ''hello'') [''b'', ''c''] None) =
               (if attachmentTags att = [] then encodeContent demoEnv demoParams
                else wrapEnmlBody (extractEnmlBody (encodeContent demoEnv demoParams) @ concat (attachmentTags att)))"
       "\<forall>getNote' calls' nd'.
                 update (demoEnv\<lparr>env_getNote := getNote'\<rparr>) demoParams = Some (calls', Inr nd') \<longrightarrow>
                 content nd' = content (updateNoteData demoParams None demoExisting (plainTextToEnml ''hello'') [''b'', ''c''] None)"
    by blast
  have "att = None" using a(1) by (simp add: buildAttachments_def demoParams_def)
  then have 1: "content (updateNoteData demoParams None demoExisting (plainTextToEnml ''hello'') [''b'', ''c''] None)
       = plainTextToEnml ''hello''"
    using a(2) by (simp add: attachmentTags_def encodeContent_def demoParams_def)
  have 2: "content (updateNoteData demoParams None
                  \<lparr>existing_title = Some ''Other'', existing_content = Some ''<en-note>other</en-note>''\<rparr>
                  (plainTextToEnml ''hello'') [''b'', ''c''] None)
       = content (updateNoteData demoParams None demoExisting (plainTextToEnml ''hello'') [''b'', ''c''] None)"
    using a(3) demo_other_update e by metis
  show ?thesis using m demo_update demo_other_update e 1 2 by simp
qed

section \<open>Tags\<close>

lemma splitOn_nonempty: "splitOn sep s \<noteq> []"
  by (induction s) (auto split: list.splits)

lemma joinWith_splitOn: "joinWith sep (splitOn sep s) = s"
proof (induction s)
  case Nil
  show ?case by simp
next
  case (Cons c t)
  obtain x xs where sp: "splitOn sep t = x # xs"
    using splitOn_nonempty [of sep t] by (cases "splitOn sep t") auto
  show ?case
  proof (cases "c = sep")
    case True
    with sp Cons.IH show ?thesis by simp
  next
    case False
    with sp Cons.IH show ?thesis by (cases xs) auto
  qed
qed

lemma splitOn_no_sep: "x \<in> set (splitOn sep s) \<Longrightarrow> sep \<notin> set x"
proof (induction s arbitrary: x)
  case Nil
  then show ?case by simp
next
  case (Cons c t)
  obtain y ys where sp: "splitOn sep t = y # ys"
    using splitOn_nonempty [of sep t] by (cases "splitOn sep t") auto
  show ?case
  proof (cases "c = sep")
    case True
    with Cons show ?thesis by auto
  next
    case False
    with Cons.prems sp have "x = c # y \<or> x \<in> set ys" by simp
    then show ?thesis
      using False Cons.IH [of y] Cons.IH [of x] sp by auto
  qed
qed

lemma last_dropWhile: "dropWhile P xs \<noteq> [] \<Longrightarrow> last (dropWhile P xs) = last xs"
  by (induction xs) (auto split: if_splits)

lemma trim_decompose:
  "\<exists>l r. s = l @ trim s @ r \<and> list_all isWhiteSpace l \<and> list_all isWhiteSpace r"
proof -
  let ?u = "dropWhile isWhiteSpace s"
  have "s = takeWhile isWhiteSpace s @ ?u" by simp
  moreover have "?u = trim s @ rev (takeWhile isWhiteSpace (rev ?u))"
    by (metis rev_append rev_rev_ident takeWhile_dropWhile_id trim_def)
  moreover have "list_all isWhiteSpace (takeWhile isWhiteSpace s)"
    by (simp add: list_all_iff) (meson set_takeWhileD)
  moreover have "list_all isWhiteSpace (rev (takeWhile isWhiteSpace (rev ?u)))"
    by (simp add: list_all_iff) (meson set_takeWhileD)
  ultimately show ?thesis by metis
qed

lemma trim_ends:
  assumes "trim s \<noteq> []"
  shows "\<not> isWhiteSpace (hd (trim s)) \<and> \<not> isWhiteSpace (last (trim s))"
proof -
  let ?u = "dropWhile isWhiteSpace s"
  let ?w = "dropWhile isWhiteSpace (rev ?u)"
  have w: "?w \<noteq> []" using assms by (simp add: trim_def)
  then have u: "?u \<noteq> []" by (metis dropWhile.simps(1) rev.simps(1))
  have "last (trim s) = hd ?w" using w by (simp add: trim_def last_rev)
  then have 1: "\<not> isWhiteSpace (last (trim s))" using hd_dropWhile [OF w] by simp
  have "hd (trim s) = last ?w" using w by (simp add: trim_def hd_rev)
  also have "\<dots> = last (rev ?u)" using w by (rule last_dropWhile)
  also have "\<dots> = hd ?u" using u by (simp add: last_rev)
  finally have 2: "\<not> isWhiteSpace (hd (trim s))" using hd_dropWhile [OF u] by simp
  from 1 2 show ?thesis by simp
qed

lemma setToArray_props:
  "distinct (setToArray seen xs) \<and> set (setToArray seen xs) = set xs - set seen"
  by (induction xs arbitrary: seen) auto

lemma distinct_setToArray: "distinct (setToArray seen xs)"
  using setToArray_props by blast

lemma set_setToArray: "set (setToArray [] xs) = set xs"
  using setToArray_props [of "[]" xs] by simp

lemma tags_sent:
  assumes "update env p = Some (calls, Inr nd)"
  shows "\<exists>tcalls tags. reconcileTags env p = (tcalls, Inr tags)
           \<and> tagNames nd = (if tagsMode p \<noteq> ''ignore'' then Some tags else None)"
proof -
  from update_Inr_D [OF assms] obtain att ex c0 tcalls tags attrs where
    "reconcileTags env p = (tcalls, Inr tags)" "nd = updateNoteData p att ex c0 tags attrs"
    by blast
  then show ?thesis by (simp add: updateNoteData_def)
qed

lemma demo_tag_update:
  assumes "reconcileTags demoEnv (demoTagParams mode raw) = (tc, Inr tags)"
  shows "update demoEnv (demoTagParams mode raw) =
     Some (GetNote ''n1'' True # tc @
             [UpdateNote (updateNoteData (demoTagParams mode raw) None demoExisting
                            (plainTextToEnml ''hello'') tags None)],
           Inr (updateNoteData (demoTagParams mode raw) None demoExisting
                  (plainTextToEnml ''hello'') tags None))"
proof -
  let ?p = "demoTagParams mode raw"
  have f: "fetchWithContent ?p = True" "noteGuid ?p = ''n1''"
    by (simp_all add: fetchWithContent_def demoTagParams_def demoParams_def)
  have 1: "buildAttachments demoEnv ?p = Inr None"
    by (simp add: buildAttachments_def demoTagParams_def demoParams_def)
  have 2: "env_getNote demoEnv (noteGuid ?p) (fetchWithContent ?p) = Inr demoExisting"
    by (simp add: f demoExisting_def)
  have 3: "editContent demoEnv ?p demoExisting = Some (Inr (plainTextToEnml ''hello''))"
    by (simp add: editContent_def encodeContent_def demoTagParams_def demoParams_def)
  have 5: "mergeAttributes (env_JSON_parse demoEnv) (attributesJson ?p) (noteAttributesUi ?p) = Inr None"
    by (simp add: mergeAttributes_def emptyObject_def demoTagParams_def demoParams_def)
  show ?thesis using update_Inr_I [OF 1 2 3 assms 5] by (simp add: f)
qed

lemma demo_requested: "splitTags ''b,c'' = [''b'', ''c'']" "splitTags ''a,a'' = [''a'', ''a'']"
  by (simp_all add: splitTags_def trim_def isWhiteSpace_def)

lemma demo_reconcile:
  "reconcileTags demoEnv (demoTagParams ''add'' ''b,c'') = ([GetNoteTagNames ''n1''], Inr [''a'', ''b'', ''c''])"
  "reconcileTags demoEnv (demoTagParams ''remove'' ''b,c'') = ([GetNoteTagNames ''n1''], Inr [''a''])"
  "reconcileTags demoEnv (demoTagParams ''replace'' ''b,c'') = ([], Inr [''b'', ''c''])"
  "reconcileTags demoEnv (demoTagParams ''ignore'' ''b,c'') = ([], Inr [])"
  "reconcileTags demoEnv (demoTagParams ''replace'' ''a,a'') = ([], Inr [''a'', ''a''])"
  by (simp_all add: reconcileTags_def demoTagParams_def demoParams_def demoEnv_def demo_requested)

text \<open>
  Claim C4 as stated fails in \<open>replace\<close> mode: the requested list is not deduplicated.
  For the tag string \<open>a,a\<close> the tag names sent are \<open>a\<close> and \<open>a\<close>.
\<close>

theorem replace_tags_keep_duplicates_counterexample:
  "update demoEnv (demoTagParams ''replace'' ''a,a'') =
     Some ([GetNote ''n1'' True,
            UpdateNote (updateNoteData (demoTagParams ''replace'' ''a,a'') None demoExisting
                          (plainTextToEnml ''hello'') [''a'', ''a''] None)],
           Inr (updateNoteData (demoTagParams ''replace'' ''a,a'') None demoExisting
                  (plainTextToEnml ''hello'') [''a'', ''a''] None))
   \<and> tagNames (updateNoteData (demoTagParams ''replace'' ''a,a'') None demoExisting
                  (plainTextToEnml ''hello'') [''a'', ''a''] None) = Some [''a'', ''a'']
   \<and> \<not> distinct [''a'', ''a'']"
  using demo_tag_update [OF demo_reconcile(5)]
  by (simp add: updateNoteData_def demoTagParams_def)

text \<open>
  Claim C4, as amended. Whenever the update branch reaches \<open>updateNote\<close>: in mode
  \<open>ignore\<close> the note sent has no tag names at all; in mode \<open>add\<close> the tag names sent are
  without duplicates and are, as a set, the existing names united with the requested
  ones; in mode \<open>remove\<close> they are the existing names that are not requested; in every
  other mode (\<open>replace\<close>) they are the requested list as it is, duplicates kept. The
  requested list is the list of the comma-separated pieces of the tag string, each
  trimmed of white space at both ends, empty ones dropped.
\<close>

theorem tag_reconciliation:
  assumes "update env p = Some (calls, Inr nd)"
  shows "(tagsMode p = ''ignore'' \<longrightarrow> tagNames nd = None)
       \<and> (tagsMode p = ''add'' \<longrightarrow>
            (\<exists>existing ts. env_getNoteTagNames env (noteGuid p) = Inr existing
               \<and> tagNames nd = Some ts \<and> distinct ts
               \<and> set ts = set existing \<union> set (splitTags (tagsRaw p))))
       \<and> (tagsMode p = ''remove'' \<longrightarrow>
            (\<exists>existing ts. env_getNoteTagNames env (noteGuid p) = Inr existing
               \<and> tagNames nd = Some ts
               \<and> ts = filter (\<lambda>tag. tag \<notin> set (splitTags (tagsRaw p))) existing
               \<and> set ts = set existing - set (splitTags (tagsRaw p))))
       \<and> (tagsMode p \<noteq> ''ignore'' \<and> tagsMode p \<noteq> ''add'' \<and> tagsMode p \<noteq> ''remove'' \<longrightarrow>
            tagNames nd = Some (splitTags (tagsRaw p)))
       \<and> splitTags (tagsRaw p) = filter (\<lambda>tag. tag \<noteq> []) (map trim (splitOn (CHR '','') (tagsRaw p)))
       \<and> joinWith (CHR '','') (splitOn (CHR '','') (tagsRaw p)) = tagsRaw p
       \<and> (\<forall>piece \<in> set (splitOn (CHR '','') (tagsRaw p)).
             CHR '','' \<notin> set piece
           \<and> (\<exists>l r. piece = l @ trim piece @ r \<and> list_all isWhiteSpace l \<and> list_all isWhiteSpace r)
           \<and> (trim piece \<noteq> [] \<longrightarrow> \<not> isWhiteSpace (hd (trim piece)) \<and> \<not> isWhiteSpace (last (trim piece))))"
proof -
  from tags_sent [OF assms] obtain tcalls tags where
    r: "reconcileTags env p = (tcalls, Inr tags)"
    and t: "tagNames nd = (if tagsMode p \<noteq> ''ignore'' then Some tags else None)"
    by blast
  have 1: "tagsMode p = ''ignore'' \<longrightarrow> tagNames nd = None" using t by simp
  have 2: "tagsMode p = ''add'' \<longrightarrow>
            (\<exists>existing ts. env_getNoteTagNames env (noteGuid p) = Inr existing
               \<and> tagNames nd = Some ts \<and> distinct ts
               \<and> set ts = set existing \<union> set (splitTags (tagsRaw p)))"
    using r t
    by (auto simp: reconcileTags_def Let_def distinct_setToArray set_setToArray split: sum.splits)
  have 3: "tagsMode p = ''remove'' \<longrightarrow>
            (\<exists>existing ts. env_getNoteTagNames env (noteGuid p) = Inr existing
               \<and> tagNames nd = Some ts
               \<and> ts = filter (\<lambda>tag. tag \<notin> set (splitTags (tagsRaw p))) existing
               \<and> set ts = set existing - set (splitTags (tagsRaw p)))"
    using r t by (auto simp: reconcileTags_def Let_def split: sum.splits)
  have 4: "tagsMode p \<noteq> ''ignore'' \<and> tagsMode p \<noteq> ''add'' \<and> tagsMode p \<noteq> ''remove'' \<longrightarrow>
            tagNames nd = Some (splitTags (tagsRaw p))"
    using r t by (auto simp: reconcileTags_def Let_def)
  have 5: "splitTags (tagsRaw p) = filter (\<lambda>tag. tag \<noteq> []) (map trim (splitOn (CHR '','') (tagsRaw p)))"
    by (simp add: splitTags_def)
  have 6: "\<forall>piece \<in> set (splitOn (CHR '','') (tagsRaw p)).
             CHR '','' \<notin> set piece
           \<and> (\<exists>l r. piece = l @ trim piece @ r \<and> list_all isWhiteSpace l \<and> list_all isWhiteSpace r)
           \<and> (trim piece \<noteq> [] \<longrightarrow> \<not> isWhiteSpace (hd (trim piece)) \<and> \<not> isWhiteSpace (last (trim piece)))"
    using splitOn_no_sep trim_decompose trim_ends by blast
  show ?thesis using 1 2 3 4 5 6 joinWith_splitOn by blast
qed

theorem tag_reconciliation_witness:
  "update demoEnv (demoTagParams ''add'' ''b,c'') =
     Some ([GetNote ''n1'' True, GetNoteTagNames ''n1'',
            UpdateNote (updateNoteData (demoTagParams ''add'' ''b,c'') None demoExisting
                          (plainTextToEnml ''hello'') [''a'', ''b'', ''c''] None)],
           Inr (updateNoteData (demoTagParams ''add'' ''b,c'') None demoExisting
                  (plainTextToEnml ''hello'') [''a'', ''b'', ''c''] None))
   \<and> (\<exists>ts. tagNames (updateNoteData (demoTagParams ''add'' ''b,c'') None demoExisting
                        (plainTextToEnml ''hello'') [''a'', ''b'', ''c''] None) = Some ts
          \<and> distinct ts \<and> set ts = {''a'', ''b'', ''c''})
   \<and> update demoEnv (demoTagParams ''remove'' ''b,c'') =
     Some ([GetNote ''n1'' True, GetNoteTagNames ''n1'',
            UpdateNote (updateNoteData (demoTagParams ''remove'' ''b,c'') None demoExisting
                          (plainTextToEnml ''hello'') [''a''] None)],
           Inr (updateNoteData (demoTagParams ''remove'' ''b,c'') None demoExisting
                  (plainTextToEnml ''hello'') [''a''] None))
   \<and> tagNames (updateNoteData (demoTagParams ''remove'' ''b,c'') None demoExisting
                  (plainTextToEnml ''hello'') [''a''] None) = Some [''a'']
   \<and> update demoEnv (demoTagParams ''replace'' ''b,c'') =
     Some ([GetNote ''n1'' True,
            UpdateNote (updateNoteData (demoTagParams ''replace'' ''b,c'') None demoExisting
                          (plainTextToEnml ''hello'') [''b'', ''c''] None)],
           Inr (updateNoteData (demoTagParams ''replace'' ''b,c'') None demoExisting
                  (plainTextToEnml ''hello'') [''b'', ''c''] None))
   \<and> tagNames (updateNoteData (demoTagParams ''replace'' ''b,c'') None demoExisting
                  (plainTextToEnml ''hello'') [''b'', ''c''] None) = Some [''b'', ''c'']
   \<and> update demoEnv (demoTagParams ''ignore'' ''b,c'') =
     Some ([GetNote ''n1'' True,
            UpdateNote (updateNoteData (demoTagParams ''ignore'' ''b,c'') None demoExisting
                          (plainTextToEnml ''hello'') [] None)],
           Inr (updateNoteData (demoTagParams ''ignore'' ''b,c'') None demoExisting
                  (plainTextToEnml ''hello'') [] None))
   \<and> tagNames (updateNoteData (demoTagParams ''ignore'' ''b,c'') None demoExisting
                  (plainTextToEnml ''hello'') [] None) = None"
proof -
  have m: "tagsMode (demoTagParams mode raw) = mode" "tagsRaw (demoTagParams mode raw) = raw"
          "noteGuid (demoTagParams mode raw) = ''n1''" for mode raw
    by (simp_all add: demoTagParams_def demoParams_def)
  have ex: "env_getNoteTagNames demoEnv ''n1'' = Inr [''a'', ''b'']" by (simp add: demoEnv_def)
  note ua = demo_tag_update [OF demo_reconcile(1)]
  note ur = demo_tag_update [OF demo_reconcile(2)]
  note up = demo_tag_update [OF demo_reconcile(3)]
  note ui = demo_tag_update [OF demo_reconcile(4)]
  have a: "\<exists>ts. tagNames (updateNoteData (demoTagParams ''add'' ''b,c'') None demoExisting
                        (plainTextToEnml ''hello'') [''a'', ''b'', ''c''] None) = Some ts
          \<and> distinct ts \<and> set ts = {''a'', ''b'', ''c''}"
    using tag_reconciliation [OF ua, THEN conjunct2, THEN conjunct1] ex
    by (auto simp: m demo_requested)
  have r: "tagNames (updateNoteData (demoTagParams ''remove'' ''b,c'') None demoExisting
                  (plainTextToEnml ''hello'') [''a''] None) = Some [''a'']"
    using tag_reconciliation [OF ur, THEN conjunct2, THEN conjunct2, THEN conjunct1] ex
    by (auto simp: m demo_requested)
  have p: "tagNames (updateNoteData (demoTagParams ''replace'' ''b,c'') None demoExisting
                  (plainTextToEnml ''hello'') [''b'', ''c''] None) = Some [''b'', ''c'']"
    using tag_reconciliation [OF up, THEN conjunct2, THEN conjunct2, THEN conjunct2, THEN conjunct1]
    by (simp add: m demo_requested)
  have i: "tagNames (updateNoteData (demoTagParams ''ignore'' ''b,c'') None demoExisting
                  (plainTextToEnml ''hello'') [] None) = None"
    using tag_reconciliation [OF ui, THEN conjunct1] by (simp add: m)
  show ?thesis using ua ur up ui a r p i by simp
qed

section \<open>Attributes\<close>














lemma mergeAttributes_eq:
  "mergeAttributes J js ui =
     (if js \<noteq> []
      then (case J js of
              None \<Rightarrow> Inl InvalidAttributesJson
            | Some parsed \<Rightarrow>
                Inr (finishAttributes (Object_assign (Object_assign emptyObject (ownProperties parsed)) ui)))
      else Inr (finishAttributes (Object_assign emptyObject ui)))"
proof -
  have ui: "(if length ui > 0 then Object_assign a ui else a) = Object_assign a ui" for a
    by (cases ui) (simp_all add: Object_assign_def)
  show ?thesis
    unfolding mergeAttributes_def Let_def ui finishAttributes_def
    by (simp split: option.splits)
qed

















section \<open>Search and replace\<close>

lemma syntax_chars:
  "list_ex (\<lambda>it. cfound False it c) (map CChar (''.*+?^${}()|[]'' @ [CHR 0x5C])) = isSyntaxCharacter c"
  by (auto simp: isSyntaxCharacter_def Canonicalize_def)

lemma escapeRegExp_chars:
  "escapeRegExp v = concat (map (\<lambda>c. if isSyntaxCharacter c then [CHR 0x5C, c] else [c]) v)"
proof -
  have "regexReplaceAll False (Atom (Cls False (map CChar (''.*+?^${}()|[]'' @ [CHR 0x5C]))))
          ([CHR 0x5C] @ ''$&'') [] v
        = concat (map (\<lambda>c. if amatch False (Cls False (map CChar (''.*+?^${}()|[]'' @ [CHR 0x5C]))) c
                             then [CHR 0x5C, c] else [c]) v)"
    by (rule regexReplaceAll_Atom) simp
  then show ?thesis
    unfolding escapeRegExp_def by (simp only: amatch.simps syntax_chars) simp
qed

lemma parsePattern_plain:
  "\<not> isSyntaxCharacter c \<Longrightarrow> parsePattern (c # rest) = seqAtom (Chr c) (parsePattern rest)"
  by (cases rest) (auto simp: isSyntaxCharacter_def)

lemma parsePattern_escaped_char:
  "isSyntaxCharacter c \<Longrightarrow> parsePattern (CHR 0x5C # c # rest) = seqAtom (Chr c) (parsePattern rest)"
  by (simp add: escapeAtom_def)

lemma parsePattern_escapeRegExp: "parsePattern (escapeRegExp v) = Compiled (lit v)"
  unfolding escapeRegExp_chars
proof (induction v)
  case Nil
  show ?case by simp
next
  case (Cons c t)
  show ?case
  proof (cases "isSyntaxCharacter c")
    case True
    then show ?thesis
      using Cons.IH parsePattern_escaped_char [OF True] by (simp del: parsePattern.simps)
  next
    case False
    then show ?thesis
      using Cons.IH parsePattern_plain [OF False] by (simp del: parsePattern.simps)
  qed
qed

lemma ngroups_lit: "ngroups (lit v) = 0"
  by (induction v) simp_all

lemma ms_lit_matchesAt:
  "ms ic (lit v) s caps = (if matchesAt ic v s then [(drop (length v) s, caps)] else [])"
  by (simp add: ms_lit matchesAt_def)

lemma regexReplaceAll_lit:
  assumes "v \<noteq> []" and "CHR ''$'' \<notin> set r"
  shows "regexReplaceAll ic (lit v) r pre s = replaceOccurrences ic v r s"
  using assms
proof (induction ic v r s arbitrary: pre rule: replaceOccurrences.induct)
  case (1 ic v r)
  then show ?case
    by (subst regexReplaceAll.simps) (simp add: ms_lit_matchesAt matchesAt_def)
next
  case (2 ic v r c t)
  show ?case
  proof (cases "matchesAt ic v (c # t)")
    case True
    then have len: "length v \<le> Suc (length t)" by (simp add: matchesAt_def)
    have d: "drop (length v) (c # t) = drop (length v - 1) t"
      using "2.prems"(1) by (cases v) simp_all
    have lt: "length t - (length v - Suc 0) < Suc (length t)" by arith
    have "regexReplaceAll ic (lit v) r pre (c # t)
          = r @ regexReplaceAll ic (lit v) r (pre @ take (length v) (c # t)) (drop (length v - 1) t)"
      using True "2.prems" len lt
      by (subst regexReplaceAll.simps)
         (simp add: ms_lit_matchesAt ngroups_lit GetSubstitution_plain d del: drop_Suc_Cons take_Suc_Cons)
    then show ?thesis using True "2.prems" "2.IH"(1) by simp
  next
    case False
    have "regexReplaceAll ic (lit v) r pre (c # t) = c # regexReplaceAll ic (lit v) r (pre @ [c]) t"
      using False by (subst regexReplaceAll.simps) (simp add: ms_lit_matchesAt)
    then show ?thesis using False "2.prems" "2.IH"(2) by simp
  qed
qed

lemma buildLoop_error:
  "buildLoop md5 ex i names rs ts = Inl e \<Longrightarrow> \<exists>msg. e = InputError msg"
  by (induction names arbitrary: rs ts) (auto simp: Let_def split: option.splits sum.splits)

lemma buildAttachments_error:
  "buildAttachments env p = Inl e \<Longrightarrow> \<exists>msg. e = InputError msg"
  using buildLoop_error
  by (fastforce simp: buildAttachments_def buildResourcesFromBinary_def split: if_splits sum.splits)

lemma reconcileTags_error:
  "reconcileTags env p = (tcalls, Inl e) \<Longrightarrow> \<exists>msg. e = RemoteServiceError msg"
  by (auto simp: reconcileTags_def Let_def split: if_splits sum.splits)

lemma mergeAttributes_error:
  "mergeAttributes J js ui = Inl e \<Longrightarrow> e = InvalidAttributesJson"
  by (auto simp: mergeAttributes_eq split: if_splits option.splits)

lemma update_Inl_cases:
  assumes "update env p = Some (calls, Inl e)"
  shows "(\<exists>msg. e = InputError msg) \<or> (\<exists>msg. e = RemoteServiceError msg) \<or> e = InvalidAttributesJson
       \<or> (\<exists>ex. env_getNote env (noteGuid p) (fetchWithContent p) = Inr ex
              \<and> editContent env p ex = Some (Inl e)
              \<and> calls = [GetNote (noteGuid p) (fetchWithContent p)])"
  using assms buildAttachments_error [of env p] reconcileTags_error [of env p]
        mergeAttributes_error [of "env_JSON_parse env" "attributesJson p" "noteAttributesUi p"]
  unfolding update_def Let_def
  by (auto split: sum.splits option.splits prod.splits)

lemma RegExp_new_escaped:
  "RegExp_new (escapeRegExp v) flags =
     RegExp \<lparr>pattern = lit v, global = (CHR ''g'' \<in> set flags), ignoreCase = (CHR ''i'' \<in> set flags)\<rparr>"
  by (simp add: RegExp_new_def parsePattern_escapeRegExp)

lemma newRegExp_escaped:
  "newRegExp env (escapeRegExp v) flags =
     RegExp \<lparr>pattern = lit v, global = (CHR ''g'' \<in> set flags), ignoreCase = (CHR ''i'' \<in> set flags)\<rparr>"
  by (simp add: newRegExp_def RegExp_new_escaped)

lemma newRegExp_empty: "newRegExp env [] flags \<noteq> RegExpSyntaxError"
  by (simp add: newRegExp_def RegExp_new_def)

lemma newRegExp_demo:
  "newRegExp demoEnv [CHR 0x5C] flags = RegExpSyntaxError"
  "newRegExp demoEnv ''('' flags = RegExpSyntaxError"
  "newRegExp demoEnv ''[a'' flags = RegExpSyntaxError"
  "newRegExp demoEnv ''*'' flags = RegExpSyntaxError"
  by (simp_all add: newRegExp_def RegExp_new_def demoEnv_def demoRegExp_def isSyntaxCharacter_def)

lemma editContent_Inl:
  assumes "editContent env p ex = Some (Inl e)"
  shows "contentEditingMode p = ''searchReplace''
       \<and> ((e = SearchValueRequired \<and> searchValue p = [])
          \<or> (e = InvalidRegularExpression \<and> searchValue p \<noteq> [] \<and> useRegex p
             \<and> newRegExp env (if \<not> useRegex p then escapeRegExp (searchValue p) else searchValue p)
                  (if caseSensitive p then ''g'' else ''gi'') = RegExpSyntaxError))"
  using assms
  by (auto simp: editContent_def Let_def newRegExp_escaped split: if_splits regexp_result.splits)

lemma editContent_searchReplace_errors:
  assumes "contentEditingMode p = ''searchReplace''"
  shows "(searchValue p = [] \<longrightarrow> editContent env p ex = Some (Inl SearchValueRequired))
       \<and> (newRegExp env (if \<not> useRegex p then escapeRegExp (searchValue p) else searchValue p)
                  (if caseSensitive p then ''g'' else ''gi'') = RegExpSyntaxError
           \<longrightarrow> editContent env p ex = Some (Inl InvalidRegularExpression))"
proof -
  have "searchValue p = [] \<Longrightarrow>
        newRegExp env (if \<not> useRegex p then escapeRegExp (searchValue p) else searchValue p)
                  (if caseSensitive p then ''g'' else ''gi'') \<noteq> RegExpSyntaxError"
    using newRegExp_empty by (simp add: escapeRegExp_chars)
  then show ?thesis
    using assms by (auto simp: editContent_def Let_def)
qed

lemma editContent_None:
  "editContent env p ex = None \<longleftrightarrow>
     contentEditingMode p = ''searchReplace'' \<and> searchValue p \<noteq> [] \<and> useRegex p
   \<and> newRegExp env (searchValue p) (if caseSensitive p then ''g'' else ''gi'') = RegExpNotModelled"
  by (auto simp: editContent_def Let_def newRegExp_escaped split: if_splits regexp_result.splits)

lemma update_None:
  "update env p = None \<longleftrightarrow>
     (\<exists>att ex. buildAttachments env p = Inr att
        \<and> env_getNote env (noteGuid p) (fetchWithContent p) = Inr ex
        \<and> editContent env p ex = None)"
  unfolding update_def Let_def
  by (auto split: sum.splits option.splits prod.splits)

text \<open>
  Claim C7. An update ends with the error \<open>"Search Text / Pattern" is required\<close> only in
  \<open>searchReplace\<close> mode with an empty search value, and with the error
  \<open>Invalid regular expression\<close> only in that mode when \<open>new RegExp\<close> rejects the pattern
  (which then is the user's own: an escaped search value always compiles); in both cases
  no \<open>updateNote\<close> call has been made. Conversely, in \<open>searchReplace\<close> mode, once the
  attachments are built and the note is fetched, an empty search value gives the first
  error and a pattern that \<open>new RegExp\<close> rejects gives the second, the fetch being the
  only call made to the note store. The constructor is \<open>newRegExp\<close>: any pattern, with
  the runtime deciding outside the modelled grammar. The update is left open only for a
  pattern of the user that compiles to a regular expression that is not modelled.
\<close>

theorem searchReplace_errors:
  "(\<forall>calls. update env p = Some (calls, Inl SearchValueRequired) \<longrightarrow>
       contentEditingMode p = ''searchReplace'' \<and> searchValue p = []
     \<and> (\<forall>nd. UpdateNote nd \<notin> set calls))
   \<and> (\<forall>calls. update env p = Some (calls, Inl InvalidRegularExpression) \<longrightarrow>
       contentEditingMode p = ''searchReplace'' \<and> searchValue p \<noteq> [] \<and> useRegex p
     \<and> newRegExp env (if \<not> useRegex p then escapeRegExp (searchValue p) else searchValue p)
          (if caseSensitive p then ''g'' else ''gi'') = RegExpSyntaxError
     \<and> (\<forall>nd. UpdateNote nd \<notin> set calls))
   \<and> (contentEditingMode p = ''searchReplace'' \<and> buildAttachments env p = Inr att
        \<and> env_getNote env (noteGuid p) (fetchWithContent p) = Inr ex \<longrightarrow>
         (searchValue p = [] \<longrightarrow>
            update env p = Some ([GetNote (noteGuid p) (fetchWithContent p)], Inl SearchValueRequired))
       \<and> (newRegExp env (if \<not> useRegex p then escapeRegExp (searchValue p) else searchValue p)
             (if caseSensitive p then ''g'' else ''gi'') = RegExpSyntaxError \<longrightarrow>
            update env p = Some ([GetNote (noteGuid p) (fetchWithContent p)], Inl InvalidRegularExpression)))
   \<and> (update env p = None \<longrightarrow>
        contentEditingMode p = ''searchReplace'' \<and> searchValue p \<noteq> [] \<and> useRegex p
      \<and> newRegExp env (searchValue p) (if caseSensitive p then ''g'' else ''gi'') = RegExpNotModelled)"
proof -
  have 1: "contentEditingMode p = ''searchReplace'' \<and> searchValue p = [] \<and> (\<forall>nd. UpdateNote nd \<notin> set calls)"
    if u: "update env p = Some (calls, Inl SearchValueRequired)" for calls
  proof -
    from update_Inl_cases [OF u] obtain ex' where "editContent env p ex' = Some (Inl SearchValueRequired)"
      by auto
    from editContent_Inl [OF this] update_Inl_D [OF u] show ?thesis by auto
  qed
  have 2: "contentEditingMode p = ''searchReplace'' \<and> searchValue p \<noteq> [] \<and> useRegex p
     \<and> newRegExp env (if \<not> useRegex p then escapeRegExp (searchValue p) else searchValue p)
          (if caseSensitive p then ''g'' else ''gi'') = RegExpSyntaxError
     \<and> (\<forall>nd. UpdateNote nd \<notin> set calls)"
    if u: "update env p = Some (calls, Inl InvalidRegularExpression)" for calls
  proof -
    from update_Inl_cases [OF u] obtain ex' where "editContent env p ex' = Some (Inl InvalidRegularExpression)"
      by auto
    from editContent_Inl [OF this] update_Inl_D [OF u] show ?thesis by auto
  qed
  have 3: "(searchValue p = [] \<longrightarrow>
            update env p = Some ([GetNote (noteGuid p) (fetchWithContent p)], Inl SearchValueRequired))
       \<and> (newRegExp env (if \<not> useRegex p then escapeRegExp (searchValue p) else searchValue p)
             (if caseSensitive p then ''g'' else ''gi'') = RegExpSyntaxError \<longrightarrow>
            update env p = Some ([GetNote (noteGuid p) (fetchWithContent p)], Inl InvalidRegularExpression))"
    if m: "contentEditingMode p = ''searchReplace''" and a: "buildAttachments env p = Inr att"
      and g: "env_getNote env (noteGuid p) (fetchWithContent p) = Inr ex"
    using editContent_searchReplace_errors [OF m, of env ex]
    by (auto simp: update_def a g)
  have 4: "contentEditingMode p = ''searchReplace'' \<and> searchValue p \<noteq> [] \<and> useRegex p
      \<and> newRegExp env (searchValue p) (if caseSensitive p then ''g'' else ''gi'') = RegExpNotModelled"
    if "update env p = None"
    using that unfolding update_None editContent_None by blast
  show ?thesis using 1 2 3 4 by blast
qed

theorem searchReplace_errors_witness:
  "contentEditingMode (demoSearchParams [] ''x'' False) = ''searchReplace''
   \<and> searchValue (demoSearchParams [] ''x'' False) = []
   \<and> update demoEnv (demoSearchParams [] ''x'' False) = Some ([GetNote ''n1'' True], Inl SearchValueRequired)
   \<and> newRegExp demoEnv [CHR 0x5C] ''gi'' = RegExpSyntaxError
   \<and> update demoEnv (demoSearchParams [CHR 0x5C] ''x'' True) = Some ([GetNote ''n1'' True], Inl InvalidRegularExpression)
   \<and> newRegExp demoEnv ''('' ''gi'' = RegExpSyntaxError
   \<and> update demoEnv (demoSearchParams ''('' ''x'' True) = Some ([GetNote ''n1'' True], Inl InvalidRegularExpression)
   \<and> update demoEnv (demoSearchParams ''[a'' ''x'' True) = Some ([GetNote ''n1'' True], Inl InvalidRegularExpression)
   \<and> update demoEnv (demoSearchParams ''*'' ''x'' True) = Some ([GetNote ''n1'' True], Inl InvalidRegularExpression)
   \<and> useRegex (demoSearchParams ''('' ''x'' True)
   \<and> UpdateNote (updateNoteData demoParams None demoExisting [] [] None) \<notin> set [GetNote ''n1'' True]
   \<and> update demoEnv (demoSearchParams ''(a)'' ''x'' True) = None
   \<and> newRegExp demoEnv ''(a)'' ''gi'' = RegExpNotModelled"
proof -
  have f: "fetchWithContent (demoSearchParams s r x) = True" "noteGuid (demoSearchParams s r x) = ''n1''"
          "contentEditingMode (demoSearchParams s r x) = ''searchReplace''"
          "searchValue (demoSearchParams s r x) = s" "useRegex (demoSearchParams s r x) = x"
          "caseSensitive (demoSearchParams s r x) = False" for s r x
    by (simp_all add: fetchWithContent_def demoSearchParams_def demoParams_def)
  have a: "buildAttachments demoEnv (demoSearchParams s r x) = Inr None" for s r x
    by (simp add: buildAttachments_def demoSearchParams_def demoParams_def)
  have g: "env_getNote demoEnv (noteGuid (demoSearchParams s r x)) (fetchWithContent (demoSearchParams s r x))
           = Inr demoExisting" for s r x
    by (simp add: f demoExisting_def)
  note t1 = searchReplace_errors [of demoEnv "demoSearchParams [] ''x'' False" None demoExisting,
              THEN conjunct2, THEN conjunct2, THEN conjunct1, rule_format]
  have u1: "update demoEnv (demoSearchParams [] ''x'' False) = Some ([GetNote ''n1'' True], Inl SearchValueRequired)"
    using t1 [THEN conjunct1] a g by (simp add: f)
  have u2: "update demoEnv (demoSearchParams s ''x'' True)
            = Some ([GetNote ''n1'' True], Inl InvalidRegularExpression)"
    if "newRegExp demoEnv s ''gi'' = RegExpSyntaxError" for s
    using searchReplace_errors [of demoEnv "demoSearchParams s ''x'' True" None demoExisting,
              THEN conjunct2, THEN conjunct2, THEN conjunct1, rule_format, THEN conjunct2] a g that
    by (simp add: f)
  note t3 = searchReplace_errors [of demoEnv "demoSearchParams [] ''x'' False" None demoExisting,
              THEN conjunct1, rule_format, OF u1]
  from t3 have n: "UpdateNote (updateNoteData demoParams None demoExisting [] [] None) \<notin> set [GetNote ''n1'' True]"
    by blast
  have o: "newRegExp demoEnv ''(a)'' ''gi'' = RegExpNotModelled"
    by (simp add: newRegExp_def RegExp_new_def demoEnv_def demoRegExp_def isSyntaxCharacter_def)
  have "editContent demoEnv (demoSearchParams ''(a)'' ''x'' True) demoExisting = None"
    unfolding editContent_None using o by (simp add: f)
  then have u4: "update demoEnv (demoSearchParams ''(a)'' ''x'' True) = None"
    unfolding update_None using a g by blast
  note t4 = searchReplace_errors [of demoEnv "demoSearchParams ''('' ''x'' True" None demoExisting,
              THEN conjunct2, THEN conjunct1, rule_format, OF u2 [OF newRegExp_demo(2)]]
  from t4 have r: "useRegex (demoSearchParams ''('' ''x'' True)"
    and b: "newRegExp demoEnv ''('' ''gi'' = RegExpSyntaxError"
    by (simp_all add: f)
  note t5 = searchReplace_errors [of demoEnv "demoSearchParams ''(a)'' ''x'' True" None demoExisting,
              THEN conjunct2, THEN conjunct2, THEN conjunct2, rule_format, OF u4]
  from t5 have o': "newRegExp demoEnv ''(a)'' ''gi'' = RegExpNotModelled"
    by (simp add: f)
  show ?thesis
    using u1 u2 [OF newRegExp_demo(1)] u2 [OF newRegExp_demo(2)] u2 [OF newRegExp_demo(3)]
          u2 [OF newRegExp_demo(4)] newRegExp_demo(1) b r n o' u4
    by (simp add: f)
qed

lemma of_char_toUpperCase:
  "(of_char (toUpperCase c) :: nat) =
     (if (97 \<le> (of_char c :: nat) \<and> (of_char c :: nat) \<le> 122)
         \<or> (224 \<le> (of_char c :: nat) \<and> (of_char c :: nat) \<le> 254 \<and> (of_char c :: nat) \<noteq> 247)
      then of_char c - 32 else of_char c)"
  by (auto simp: toUpperCase_def Let_def)

lemma toUpperCase_eq_iff:
  "toUpperCase a = toUpperCase b \<longleftrightarrow>
     (if (97 \<le> (of_char a :: nat) \<and> (of_char a :: nat) \<le> 122)
         \<or> (224 \<le> (of_char a :: nat) \<and> (of_char a :: nat) \<le> 254 \<and> (of_char a :: nat) \<noteq> 247)
      then of_char a - 32 else (of_char a :: nat))
   = (if (97 \<le> (of_char b :: nat) \<and> (of_char b :: nat) \<le> 122)
         \<or> (224 \<le> (of_char b :: nat) \<and> (of_char b :: nat) \<le> 254 \<and> (of_char b :: nat) \<noteq> 247)
      then of_char b - 32 else (of_char b :: nat))"
proof -
  have "toUpperCase a = toUpperCase b \<longleftrightarrow> (of_char (toUpperCase a) :: nat) = of_char (toUpperCase b)"
    by simp
  then show ?thesis
    by (simp only: of_char_toUpperCase)
qed

lemma regexReplaceAll_lit_Nil: "v \<noteq> [] \<Longrightarrow> regexReplaceAll ic (lit v) tpl pre [] = []"
  by (subst regexReplaceAll.simps) (simp add: ms_lit_matchesAt matchesAt_def)

lemma regexReplaceAll_lit_Cons:
  "v \<noteq> [] \<Longrightarrow>
   regexReplaceAll ic (lit v) tpl pre (c # t) =
     (if matchesAt ic v (c # t)
      then GetSubstitution (take (length v) (c # t)) pre (drop (length v) (c # t)) 0 Map.empty tpl
           @ regexReplaceAll ic (lit v) tpl (pre @ take (length v) (c # t)) (drop (length v) (c # t))
      else c # regexReplaceAll ic (lit v) tpl (pre @ [c]) t)"
proof -
  assume v: "v \<noteq> []"
  have lt: "matchesAt ic v (c # t) \<Longrightarrow> length (drop (length v) (c # t)) < length (c # t)"
    using v by (cases v) (simp_all add: matchesAt_def)
  have tk: "matchesAt ic v (c # t) \<Longrightarrow>
            take (length (c # t) - length (drop (length v) (c # t))) (c # t) = take (length v) (c # t)"
    by (simp add: matchesAt_def)
  show ?thesis
  proof (cases "matchesAt ic v (c # t)")
    case True
    show ?thesis
      using True lt [OF True] tk [OF True]
      by (subst regexReplaceAll.simps)
         (simp only: ms_lit_matchesAt if_True list.case prod.case ngroups_lit)
  next
    case False
    then show ?thesis
      by (subst regexReplaceAll.simps) (simp add: ms_lit_matchesAt)
  qed
qed

lemma regexReplaceAll_Atom_Eps:
  assumes "CHR ''$'' \<notin> set tpl"
  shows "regexReplaceAll ic (Cat (Atom a) Eps) tpl pre s = concat (map (\<lambda>c. if amatch ic a c then tpl else [c]) s)"
proof (induction s arbitrary: pre)
  case Nil
  show ?case by (subst regexReplaceAll.simps) simp
next
  case (Cons c t)
  show ?case
    by (subst regexReplaceAll.simps) (simp add: GetSubstitution_plain assms Cons.IH)
qed

lemma editContent_literal:
  assumes "contentEditingMode p = ''searchReplace''" and "\<not> useRegex p" and "searchValue p \<noteq> []"
    and "CHR ''$'' \<notin> set (if contentMode p = ''html'' then htmlContent p else plainContent p)"
  shows "editContent env p ex =
           Some (Inr (wrapEnmlBody
             (replaceOccurrences (\<not> caseSensitive p) (searchValue p)
                (if contentMode p = ''html'' then htmlContent p else plainContent p)
                (extractEnmlBody (orElse (existing_content ex) [])))))"
  using assms
  by (simp add: editContent_def Let_def newRegExp_escaped stringReplace_def regexReplaceAll_lit)

lemma example_literal_dot:
  "editContent demoEnv (demoSearchParams ''.'' '','' False) demoExisting
   = Some (Inr (wrapEnmlBody ''price: $5,00''))"
proof -
  have "replaceOccurrences True ''.'' '','' ''price: $5.00'' = ''price: $5,00''"
    by (simp add: matchesAt_def Canonicalize_def toUpperCase_eq_iff)
  moreover have "orElse (existing_content demoExisting) [] = wrapEnmlBody ''price: $5.00''"
    by (simp add: demoExisting_def orElse_def wrapEnmlBody_nonempty)
  ultimately show ?thesis
    using editContent_literal [of "demoSearchParams ''.'' '','' False" demoEnv demoExisting]
    by (simp add: demoSearchParams_def demoParams_def demo_body)
qed

lemma example_regex_digit:
  "editContent demoEnv (demoSearchParams ([CHR 0x5C] @ ''d'') ''#'' True) demoExisting
   = Some (Inr (wrapEnmlBody ''price: $#.##''))"
proof -
  have r: "newRegExp demoEnv ([CHR 0x5C] @ ''d'') ''gi''
        = RegExp \<lparr>pattern = Cat (Atom (Cls False [CDigit])) Eps, global = True, ignoreCase = True\<rparr>"
    by (simp add: newRegExp_def RegExp_new_def escapeAtom_def isSyntaxCharacter_def)
  have "regexReplaceAll True (Cat (Atom (Cls False [CDigit])) Eps) ''#'' [] ''price: $5.00'' = ''price: $#.##''"
    by (simp add: regexReplaceAll_Atom_Eps isDigit_def)
  moreover have "orElse (existing_content demoExisting) [] = wrapEnmlBody ''price: $5.00''"
    by (simp add: demoExisting_def orElse_def wrapEnmlBody_nonempty)
  ultimately show ?thesis
    using r by (simp add: editContent_def Let_def demoSearchParams_def demoParams_def demo_body stringReplace_def)
qed

lemma demo_dollar_edit:
  "editContent demoEnv (demoSearchParams ''price'' ''$$'' False) demoExisting
   = Some (Inr (wrapEnmlBody ''$: $5.00''))"
proof -
  have "regexReplaceAll True (lit ''price'') ''$$'' [] ''price: $5.00'' = ''$: $5.00''"
    by (simp add: regexReplaceAll_lit_Cons regexReplaceAll_lit_Nil matchesAt_def Canonicalize_def toUpperCase_eq_iff
             del: lit.simps)
  moreover have "orElse (existing_content demoExisting) [] = wrapEnmlBody ''price: $5.00''"
    by (simp add: demoExisting_def orElse_def wrapEnmlBody_nonempty)
  ultimately show ?thesis
    by (simp add: editContent_def Let_def newRegExp_escaped stringReplace_def
                  demoSearchParams_def demoParams_def demo_body del: lit.simps)
qed

lemma demo_search_update:
  assumes "editContent demoEnv (demoSearchParams v r rx) demoExisting = Some (Inr c0)"
  shows "update demoEnv (demoSearchParams v r rx) =
     Some ([GetNote ''n1'' True,
            UpdateNote (updateNoteData (demoSearchParams v r rx) None demoExisting c0 [''b'', ''c''] None)],
           Inr (updateNoteData (demoSearchParams v r rx) None demoExisting c0 [''b'', ''c''] None))"
proof -
  let ?p = "demoSearchParams v r rx"
  have f: "fetchWithContent ?p = True" "noteGuid ?p = ''n1''"
    by (simp_all add: fetchWithContent_def demoSearchParams_def demoParams_def)
  have 1: "buildAttachments demoEnv ?p = Inr None"
    by (simp add: buildAttachments_def demoSearchParams_def demoParams_def)
  have 2: "env_getNote demoEnv (noteGuid ?p) (fetchWithContent ?p) = Inr demoExisting"
    by (simp add: f demoExisting_def)
  have 4: "reconcileTags demoEnv ?p = ([], Inr [''b'', ''c''])"
    by (simp add: reconcileTags_def demoSearchParams_def demoParams_def splitTags_def trim_def isWhiteSpace_def)
  have 5: "mergeAttributes (env_JSON_parse demoEnv) (attributesJson ?p) (noteAttributesUi ?p) = Inr None"
    by (simp add: mergeAttributes_def emptyObject_def demoSearchParams_def demoParams_def)
  show ?thesis using update_Inr_I [OF 1 2 assms 4 5] by (simp add: f)
qed

lemma content_no_attachments: "content (updateNoteData p None ex c0 tags attrs) = c0"
  by (simp add: updateNoteData_def withMedia_def attachmentTags_def)

text \<open>
  Claim C3. The search and replace mode hands the replacement value to
  \<open>String.prototype.replace\<close> as a replacement pattern, so a \<open>$\<close> in it is not taken
  literally. For the stored body \<open>price: $5.00\<close>, the literal search text \<open>price\<close> (regular
  expressions disabled, default case-insensitive matching) and the replacement value
  \<open>$$\<close>, the update sends the body \<open>$: $5.00\<close>, whereas replacing every occurrence of the
  search text by the replacement value gives \<open>$$: $5.00\<close>.
\<close>

theorem searchReplace_dollar_replacement:
  "update demoEnv (demoSearchParams ''price'' ''$$'' False) =
     Some ([GetNote ''n1'' True,
            UpdateNote (updateNoteData (demoSearchParams ''price'' ''$$'' False) None demoExisting
                          (wrapEnmlBody ''$: $5.00'') [''b'', ''c''] None)],
           Inr (updateNoteData (demoSearchParams ''price'' ''$$'' False) None demoExisting
                  (wrapEnmlBody ''$: $5.00'') [''b'', ''c''] None))
   \<and> content (updateNoteData (demoSearchParams ''price'' ''$$'' False) None demoExisting
                (wrapEnmlBody ''$: $5.00'') [''b'', ''c''] None)
       = wrapEnmlBody ''$: $5.00''
   \<and> extractEnmlBody (orElse (existing_content demoExisting) []) = ''price: $5.00''
   \<and> replaceOccurrences True ''price'' ''$$'' ''price: $5.00'' = ''$$: $5.00''"
proof -
  have "replaceOccurrences True ''price'' ''$$'' ''price: $5.00'' = ''$$: $5.00''"
    by (simp add: matchesAt_def Canonicalize_def toUpperCase_eq_iff)
  moreover have "extractEnmlBody (orElse (existing_content demoExisting) []) = ''price: $5.00''"
    by (simp add: demoExisting_def orElse_def wrapEnmlBody_nonempty demo_body)
  ultimately show ?thesis
    using demo_search_update [OF demo_dollar_edit] content_no_attachments
    by simp
qed

end
